theory Spec2Isabelle
  imports Complex_Main "HOL-Library.Stream"
begin

section \<open>The code generator of \<^verbatim>\<open>src/lib/code-generator.js\<close>\<close>

text \<open>
  The module exports one class with the methods \<^verbatim>\<open>generateCodes\<close> and
  \<^verbatim>\<open>randomChars\<close>; everything else is a private function of the module. Each of
  them is a definition below, under its own name.

  Conventions of the embedding:
  \<^item> a JavaScript string is a \<open>string\<close>; a count is a \<open>nat\<close> or an \<open>int\<close>, the
    sparsity a \<open>real\<close>. The products, the difference and the quotient of the capacity
    check are rounded as the doubles of JavaScript are (\<open>double\<close> below); the counts of
    permutations and the logarithms of \<^verbatim>\<open>neededChars\<close> are exact;
  \<^item> the values \<^verbatim>\<open>NaN\<close> and \<^verbatim>\<open>Infinity\<close>, which \<^verbatim>\<open>neededChars\<close> can return,
    are constructors of the type \<open>number\<close>;
  \<^item> \<^verbatim>\<open>Math.random()\<close> is the head of a stream of reals that is passed along;
  \<^item> a \<^verbatim>\<open>throw\<close> is a result \<open>Inl e\<close>; a call that never returns is \<open>None\<close>;
  \<^item> the four regular expressions are the default ones. They carry the flag
    \<^verbatim>\<open>g\<close>, so each \<^verbatim>\<open>RegExp\<close> object has a mutable \<^verbatim>\<open>lastIndex\<close>, which is
    state of the module (the objects live in \<^verbatim>\<open>defaultOptions\<close>) and is passed
    explicitly where the code reads it.
\<close>

subsection \<open>Regular expressions\<close>

text \<open>
  \<open>Plus_token c\<close> is the expression \<^verbatim>\<open>c\+\<close> (the character \<open>c\<close> followed by a plus
  sign: \<^verbatim>\<open>/\*\+/\<close> and \<^verbatim>\<open>/#\+/\<close>), \<open>Single_token c\<close> is \<^verbatim>\<open>c(?!\+)\<close> (the character
  \<open>c\<close> not followed by a plus sign: \<^verbatim>\<open>/\*(?!\+)/\<close> and \<^verbatim>\<open>/#(?!\+)/\<close>).
\<close>

datatype regexp = Plus_token char | Single_token char

text \<open>The length of the match of an expression at the very start of a string, if any.\<close>

fun match_here :: "regexp \<Rightarrow> string \<Rightarrow> nat option" where
  "match_here (Plus_token c) (x # y # s) = (if x = c \<and> y = CHR ''+'' then Some 2 else None)"
| "match_here (Plus_token c) s = None"
| "match_here (Single_token c) [] = None"
| "match_here (Single_token c) [x] = (if x = c then Some 1 else None)"
| "match_here (Single_token c) (x # y # s) = (if x = c \<and> y \<noteq> CHR ''+'' then Some 1 else None)"

text \<open>The leftmost match in a string: its start index and its length.\<close>

fun search :: "regexp \<Rightarrow> string \<Rightarrow> (nat \<times> nat) option" where
  "search r [] = None"
| "search r (c # s) =
     (case match_here r (c # s) of
        Some n \<Rightarrow> Some (0, n)
      | None \<Rightarrow> map_option (\<lambda>(i, n). (Suc i, n)) (search r s))"

text \<open>
  \<^verbatim>\<open>RegExp.prototype.test\<close> of an expression with the flag \<^verbatim>\<open>g\<close>: the search starts
  at \<^verbatim>\<open>lastIndex\<close>; a match moves \<^verbatim>\<open>lastIndex\<close> to its end, a failure (also when
  \<^verbatim>\<open>lastIndex\<close> is beyond the string) resets it to 0. The result is the answer and
  the new \<^verbatim>\<open>lastIndex\<close>.
\<close>

definition RegExp_test :: "regexp \<Rightarrow> nat \<Rightarrow> string \<Rightarrow> bool \<times> nat" where
  "RegExp_test r lastIndex s =
     (if length s < lastIndex then (False, 0)
      else case search r (drop lastIndex s) of
             None \<Rightarrow> (False, 0)
           | Some (i, n) \<Rightarrow> (True, lastIndex + i + n))"

text \<open>
  A global scan of a string with an alternation \<^verbatim>\<open>(r0)|(r1)|...\<close>, as
  \<^verbatim>\<open>String.prototype.replace\<close> and \<^verbatim>\<open>String.prototype.match\<close> perform it: from
  left to right, at each position the first alternative that matches wins and the
  scan resumes behind the match; a character at which nothing matches is literal text.
  A match is recorded with the index of its capture group.
\<close>

datatype segment = Literal char | Matched nat

fun first_alternative :: "regexp list \<Rightarrow> string \<Rightarrow> (nat \<times> nat) option" where
  "first_alternative [] s = None"
| "first_alternative (r # rs) s =
     (case match_here r s of
        Some n \<Rightarrow> Some (0, n)
      | None \<Rightarrow> map_option (\<lambda>(g, n). (Suc g, n)) (first_alternative rs s))"

fun scan :: "regexp list \<Rightarrow> nat \<Rightarrow> string \<Rightarrow> segment list" where
  "scan alts skip [] = []"
| "scan alts (Suc k) (c # s) = scan alts k s"
| "scan alts 0 (c # s) =
     (case first_alternative alts (c # s) of
        Some (g, n) \<Rightarrow> Matched g # scan alts (n - 1) s
      | None \<Rightarrow> Literal c # scan alts 0 s)"

definition segments :: "regexp list \<Rightarrow> string \<Rightarrow> segment list" where
  "segments alts s = scan alts 0 s"

text \<open>
  \<^verbatim>\<open>pattern.match(regexp)\<close> with the flag \<^verbatim>\<open>g\<close> returns the array of all matches,
  or \<^verbatim>\<open>null\<close> when there is none; the code only reads its length. \<open>String_match\<close> is
  that length, 0 standing for \<^verbatim>\<open>null\<close>. The call leaves \<^verbatim>\<open>lastIndex\<close> at 0.
\<close>

fun is_match :: "segment \<Rightarrow> bool" where
  "is_match (Matched g) = True"
| "is_match (Literal c) = False"

definition String_match :: "string \<Rightarrow> regexp \<Rightarrow> nat" where
  "String_match s r = length (filter is_match (segments [r] s))"

subsection \<open>Options\<close>

text \<open>
  \<open>options\<close> is the object that \<^verbatim>\<open>mergeOptions\<close> returns, \<open>user_options\<close> the
  object a caller passes: a field that the caller leaves out is \<open>None\<close>. The loader
  returns an array of strings.
\<close>

record options =
  alphanumericChars :: string
  numericChars :: string
  sparsity :: real
  existingCodesLoader :: "string \<Rightarrow> string list"

record user_options =
  user_alphanumericChars :: "string option"
  user_numericChars :: "string option"
  user_sparsity :: "real option"
  user_existingCodesLoader :: "(string \<Rightarrow> string list) option"

definition alphanumericRegex :: regexp where
  "alphanumericRegex = Single_token CHR ''*''"

definition numericRegex :: regexp where
  "numericRegex = Single_token CHR ''#''"

definition alphanumericMoreRegex :: regexp where
  "alphanumericMoreRegex = Plus_token CHR ''*''"

definition numericMoreRegex :: regexp where
  "numericMoreRegex = Plus_token CHR ''#''"

definition defaultOptions :: options where
  "defaultOptions =
     \<lparr>alphanumericChars = ''123456789ABCDEFGHJKLMNPQRSTUVWXYZ'',
      numericChars = ''0123456789'',
      sparsity = 1,
      existingCodesLoader = (\<lambda>pattern. [])\<rparr>"

definition mergeOptions :: "options \<Rightarrow> user_options \<Rightarrow> options" where
  "mergeOptions defaults opts =
     \<lparr>alphanumericChars =
        (case user_alphanumericChars opts of Some v \<Rightarrow> v | None \<Rightarrow> alphanumericChars defaults),
      numericChars =
        (case user_numericChars opts of Some v \<Rightarrow> v | None \<Rightarrow> numericChars defaults),
      sparsity =
        (case user_sparsity opts of Some v \<Rightarrow> v | None \<Rightarrow> sparsity defaults),
      existingCodesLoader =
        (case user_existingCodesLoader opts of Some v \<Rightarrow> v | None \<Rightarrow> existingCodesLoader defaults)\<rparr>"

text \<open>The call without an options argument: \<^verbatim>\<open>options || {}\<close>.\<close>

definition no_options :: user_options where
  "no_options =
     \<lparr>user_alphanumericChars = None, user_numericChars = None,
      user_sparsity = None, user_existingCodesLoader = None\<rparr>"

text \<open>
  The \<^verbatim>\<open>lastIndex\<close> of the two \<^verbatim>\<open>RegExp\<close> objects on which the code calls
  \<^verbatim>\<open>test\<close>. A freshly loaded module has both at 0.
\<close>

record lastIndex =
  alphanumericMore_lastIndex :: nat
  numericMore_lastIndex :: nat

definition fresh :: lastIndex where
  "fresh = \<lparr>alphanumericMore_lastIndex = 0, numericMore_lastIndex = 0\<rparr>"

subsection \<open>The pattern analyser\<close>

text \<open>
  \<^verbatim>\<open>hasMorePlaceholder\<close>: \<^verbatim>\<open>test\<close> of the first expression and, only when it
  fails (\<^verbatim>\<open>||\<close>), \<^verbatim>\<open>test\<close> of the second. The result is the answer and the state
  of the two expressions after the call.
\<close>

definition hasMorePlaceholder :: "lastIndex \<Rightarrow> string \<Rightarrow> bool \<times> lastIndex" where
  "hasMorePlaceholder li pattern =
     (case RegExp_test alphanumericMoreRegex (alphanumericMore_lastIndex li) pattern of
        (True, i) \<Rightarrow> (True, li\<lparr>alphanumericMore_lastIndex := i\<rparr>)
      | (False, i) \<Rightarrow>
          (case RegExp_test numericMoreRegex (numericMore_lastIndex li) pattern of
             (b, j) \<Rightarrow> (b, li\<lparr>alphanumericMore_lastIndex := i, numericMore_lastIndex := j\<rparr>)))"

text \<open>
  \<^verbatim>\<open>countPermutations\<close>: \<^verbatim>\<open>matches ? Math.pow(chars.length, matches.length) : 0\<close>.
  The power is the exact one. It is the number that the code computes as long as it is
  below \<open>2 ^ 53\<close>, where every integer is a double; a larger power is rounded by
  \<^verbatim>\<open>Math.pow\<close>, and what is proved about the capacity check is stated for counts below
  \<open>2 ^ 53\<close>.
\<close>

definition countPermutations :: "string \<Rightarrow> regexp \<Rightarrow> string \<Rightarrow> nat" where
  "countPermutations pattern matcher chars =
     (let matches = String_match pattern matcher
      in if matches = 0 then 0 else length chars ^ matches)"

definition countNonRepeatingPermutations :: "string \<Rightarrow> options \<Rightarrow> nat" where
  "countNonRepeatingPermutations pattern options =
     (let numericPermutations = countPermutations pattern numericRegex (numericChars options);
          alphanumericPermutations =
            countPermutations pattern alphanumericRegex (alphanumericChars options)
      in if numericPermutations > 0 \<and> alphanumericPermutations > 0
         then numericPermutations * alphanumericPermutations
         else numericPermutations + alphanumericPermutations)"

subsection \<open>Arithmetic of doubles\<close>

text \<open>
  A number of JavaScript is an IEEE 754 double, with 53 significant bits: the result
  of \<^verbatim>\<open>*\<close>, \<^verbatim>\<open>-\<close> and \<^verbatim>\<open>/\<close> is the double nearest to the exact result, and of two
  doubles that are equally near the one whose last bit is 0.

  \<open>round_half_even y\<close> is the integer nearest to \<open>y\<close>, the even one of two that are
  equally near. \<open>double x\<close> is the double nearest to the real number \<open>x\<close>: for
  \<open>2 ^ e \<le> \<bar>x\<bar> < 2 ^ (e + 1)\<close> the doubles are the multiples of \<open>2 ^ (e - 52)\<close>. This is the
  arithmetic of the normal doubles (\<open>2 ^ (-1022) \<le> \<bar>x\<bar> < 2 ^ 1024\<close>) and of 0; the overflow
  to \<^verbatim>\<open>Infinity\<close> and the subnormal numbers are not part of it, and neither is
  \<^verbatim>\<open>NaN\<close>.
\<close>

definition round_half_even :: "real \<Rightarrow> int" where
  "round_half_even y =
     (let f = \<lfloor>y\<rfloor>
      in if y - of_int f < 1 / 2 then f
         else if 1 / 2 < y - of_int f then f + 1
         else if even f then f else f + 1)"

definition double :: "real \<Rightarrow> real" where
  "double x =
     (if x = 0 then 0
      else let e = \<lfloor>log 2 \<bar>x\<bar>\<rfloor>;
               ulp = 2 powi (e - 52)
           in ulp * of_int (round_half_even (x / ulp)))"

subsection \<open>The capacity planner\<close>

text \<open>
  \<^verbatim>\<open>checkRequestedCode\<close> subtracts and divides numbers, so the difference
  \<^verbatim>\<open>possible - existingCountSparse\<close> and the quotient \<^verbatim>\<open>possible / options.sparsity\<close>
  are rounded; \<^verbatim>\<open>Math.round\<close> is \<open>round\<close>, which rounds a half upwards as
  \<^verbatim>\<open>Math.round\<close> does.

  The error of \<^verbatim>\<open>checkRequestedCode\<close> is an \<^verbatim>\<open>Error\<close> whose message is built from
  four numbers: \<^verbatim>\<open>howMany\<close>, \<^verbatim>\<open>Math.round(possible / options.sparsity)\<close>,
  \<^verbatim>\<open>existingCount\<close> and \<^verbatim>\<open>options.sparsity\<close>. They are the fields of
  \<open>CapacityError\<close>, in this order. A \<open>TypeError\<close> carries its message.
\<close>

datatype error = CapacityError nat int nat real | TypeError string

definition checkRequestedCode ::
  "string \<Rightarrow> options \<Rightarrow> int \<Rightarrow> int \<Rightarrow> nat \<Rightarrow> nat \<Rightarrow> error + unit" where
  "checkRequestedCode pattern options existingCountSparse howManySparse howMany existingCount =
     (let possible = countNonRepeatingPermutations pattern options;
          available = double (real possible - of_int existingCountSparse)
      in if available < of_int howManySparse
         then Inl (CapacityError howMany (round (double (real possible / sparsity options)))
                     existingCount (sparsity options))
         else Inr ())"

text \<open>
  The values of \<^verbatim>\<open>Math.ceil(Math.log(howMany) / Math.log(allowedChars.length))\<close>.
  \<^verbatim>\<open>Math.log\<close> is \<^verbatim>\<open>NaN\<close> below 0, \<^verbatim>\<open>-Infinity\<close> at 0, \<open>0\<close> at 1 and positive
  above 1; the quotient follows the rules of IEEE division (\<open>0/0\<close> and
  \<open>\<infinity>/\<infinity>\<close> are \<^verbatim>\<open>NaN\<close>, a positive number over 0 is \<^verbatim>\<open>Infinity\<close>, a finite
  number over \<^verbatim>\<open>-Infinity\<close> is a zero). Where both logarithms are finite and the
  divisor is positive, the value is the ceiling of the quotient of the two logarithms.
\<close>

datatype number = Finite int | PosInfinity | NegInfinity | NaN

definition neededChars :: "int \<Rightarrow> string \<Rightarrow> number" where
  "neededChars howMany allowedChars =
     (let n = length allowedChars
      in if howMany < 0 then NaN
         else if howMany = 0 then (if n = 0 then NaN else NegInfinity)
         else if n = 0 then Finite 0
         else if n = 1 then (if howMany = 1 then NaN else PosInfinity)
         else Finite \<lceil>ln (real_of_int howMany) / ln (real n)\<rceil>)"

text \<open>
  \<^verbatim>\<open>combineRegexps\<close> joins the sources as \<^verbatim>\<open>(r0)|(r1)|...\<close>: an alternation of
  capture groups, which is the list of the expressions in their order.
\<close>

definition combineRegexps :: "regexp list \<Rightarrow> regexp list" where
  "combineRegexps regexps = regexps"

text \<open>
  \<^verbatim>\<open>calculateRepetitions\<close>. The callback of \<^verbatim>\<open>pattern.replace\<close> runs once for each
  match, from left to right, and pushes one number: for the first capture group with
  the alphanumeric characters, for the second with the numeric ones. When the pattern
  has no match, \<open>totalMatches\<close> is 0 and \<open>distribute\<close> is \<^verbatim>\<open>Infinity\<close> in the code; the
  callback never runs then, so \<open>distribute\<close> is never read.
\<close>

definition calculateRepetitions :: "string \<Rightarrow> int \<Rightarrow> int \<Rightarrow> options \<Rightarrow> number list" where
  "calculateRepetitions pattern howMany existing options =
     (let nonRepeatingPermutations = countNonRepeatingPermutations pattern options;
          alphanumericMatches = String_match pattern alphanumericMoreRegex;
          numericMatches = String_match pattern numericMoreRegex;
          howMany = max 1 (howMany - int nonRepeatingPermutations + existing);
          totalMatches = alphanumericMatches + numericMatches;
          distribute = \<lceil>real_of_int howMany / real totalMatches\<rceil>;
          combined = combineRegexps [alphanumericMoreRegex, numericMoreRegex]
      in concat (map (\<lambda>seg. case seg of
                          Literal c \<Rightarrow> []
                        | Matched g \<Rightarrow>
                            if g = 0 then [neededChars distribute (alphanumericChars options)]
                            else [neededChars distribute (numericChars options)])
                   (segments combined pattern)))"

subsection \<open>Existing codes\<close>

text \<open>
  \<open>existingCodes\<close> is a plain object used as a set; the model keeps the list of its
  own property names, in the order of their creation. Every string is an ordinary
  property name (the module is written for Deno, whose runtime removes the accessor
  \<^verbatim>\<open>__proto__\<close> of \<^verbatim>\<open>Object.prototype\<close>). One name interferes with the code: once
  \<^verbatim>\<open>'hasOwnProperty'\<close> is an own property (with the value \<^verbatim>\<open>true\<close>), it hides the
  inherited method, and \<^verbatim>\<open>existingCodes.hasOwnProperty(code)\<close> calls \<^verbatim>\<open>true\<close> and throws a
  \<^verbatim>\<open>TypeError\<close>.
\<close>

type_synonym object = "string list"

definition set_property :: "object \<Rightarrow> string \<Rightarrow> object" where
  "set_property obj el =
     (if el \<in> set obj then obj else obj @ [el])"

definition hasOwnProperty :: "object \<Rightarrow> string \<Rightarrow> error + bool" where
  "hasOwnProperty obj code =
     (if ''hasOwnProperty'' \<in> set obj
      then Inl (TypeError ''existingCodes.hasOwnProperty is not a function'')
      else Inr (code \<in> set obj))"

definition convertToObject :: "string list \<Rightarrow> object" where
  "convertToObject ary = foldl set_property [] ary"

definition loadExistingCodes :: "string \<Rightarrow> options \<Rightarrow> object" where
  "loadExistingCodes pattern options = convertToObject (existingCodesLoader options pattern)"

subsection \<open>The code emitter\<close>

text \<open>
  \<^verbatim>\<open>allowedChars.charAt(i)\<close> is the empty string when \<open>i\<close> is out of range.
\<close>

definition charAt :: "string \<Rightarrow> int \<Rightarrow> string" where
  "charAt s i = (if 0 \<le> i \<and> i < int (length s) then [s ! nat i] else [])"

text \<open>
  The body of \<^verbatim>\<open>randomChars\<close>, run \<open>n\<close> times: each round appends the character at
  \<^verbatim>\<open>Math.floor(Math.random() * allowedChars.length)\<close>.
\<close>

fun randomChars_loop :: "real stream \<Rightarrow> string \<Rightarrow> nat \<Rightarrow> string \<times> real stream" where
  "randomChars_loop rnd allowedChars 0 = ([], rnd)"
| "randomChars_loop rnd allowedChars (Suc n) =
     (let c = charAt allowedChars \<lfloor>shd rnd * real (length allowedChars)\<rfloor>;
          (text, rnd') = randomChars_loop (stl rnd) allowedChars n
      in (c @ text, rnd'))"

text \<open>
  How often \<^verbatim>\<open>for (let i = 0; i < howMany; i++)\<close> runs: \<open>None\<close> as argument is
  \<^verbatim>\<open>undefined\<close> (\<^verbatim>\<open>0 < undefined\<close> and \<^verbatim>\<open>0 < NaN\<close> are false); \<open>None\<close> as result is a
  loop without end.
\<close>

fun loop_bound :: "number option \<Rightarrow> nat option" where
  "loop_bound None = Some 0"
| "loop_bound (Some (Finite k)) = Some (nat k)"
| "loop_bound (Some PosInfinity) = None"
| "loop_bound (Some NegInfinity) = Some 0"
| "loop_bound (Some NaN) = Some 0"

definition randomChars ::
  "real stream \<Rightarrow> string \<Rightarrow> number option \<Rightarrow> (string \<times> real stream) option" where
  "randomChars rnd allowedChars howMany =
     (case loop_bound howMany of
        None \<Rightarrow> None
      | Some n \<Rightarrow> Some (randomChars_loop rnd allowedChars n))"

text \<open>\<^verbatim>\<open>rep.shift()\<close>: the first element, or \<^verbatim>\<open>undefined\<close> on an empty array.\<close>

fun shift :: "'a list \<Rightarrow> 'a option \<times> 'a list" where
  "shift [] = (None, [])"
| "shift (x # xs) = (Some x, xs)"

text \<open>
  The callback of \<^verbatim>\<open>pattern.replace(combinedRegexp, ...)\<close> in \<^verbatim>\<open>generateCodes\<close>, for
  the capture group \<open>g\<close> that matched (\<^verbatim>\<open>switch (true)\<close> takes the first defined group;
  without one the callback returns \<^verbatim>\<open>undefined\<close>, which \<^verbatim>\<open>replace\<close> writes out).
\<close>

definition replacement ::
  "options \<Rightarrow> nat \<Rightarrow> number list \<Rightarrow> real stream \<Rightarrow> (string \<times> number list \<times> real stream) option" where
  "replacement options g rep rnd =
     (if g = 0 then
        (case shift rep of (n, rep') \<Rightarrow>
           map_option (\<lambda>(t, rnd'). (t, rep', rnd')) (randomChars rnd (alphanumericChars options) n))
      else if g = 1 then
        (case shift rep of (n, rep') \<Rightarrow>
           map_option (\<lambda>(t, rnd'). (t, rep', rnd')) (randomChars rnd (numericChars options) n))
      else if g = 2 then
        map_option (\<lambda>(t, rnd'). (t, rep, rnd'))
          (randomChars rnd (alphanumericChars options) (Some (Finite 1)))
      else if g = 3 then
        map_option (\<lambda>(t, rnd'). (t, rep, rnd'))
          (randomChars rnd (numericChars options) (Some (Finite 1)))
      else Some (''undefined'', rep, rnd))"

text \<open>\<^verbatim>\<open>pattern.replace\<close> over the scanned pattern: literal text is copied.\<close>

fun replace :: "options \<Rightarrow> segment list \<Rightarrow> number list \<Rightarrow> real stream \<Rightarrow> (string \<times> real stream) option" where
  "replace options [] rep rnd = Some ([], rnd)"
| "replace options (Literal c # segs) rep rnd =
     map_option (\<lambda>(code, rnd'). (c # code, rnd')) (replace options segs rep rnd)"
| "replace options (Matched g # segs) rep rnd =
     (case replacement options g rep rnd of
        None \<Rightarrow> None
      | Some (t, rep', rnd') \<Rightarrow>
          map_option (\<lambda>(code, rnd''). (t @ code, rnd'')) (replace options segs rep' rnd'))"

text \<open>
  The \<^verbatim>\<open>while\<close> loop of \<^verbatim>\<open>generateCodes\<close>. Its state is \<^verbatim>\<open>generated\<close>,
  \<^verbatim>\<open>existingCodes\<close> and the random source. \<open>repetitions\<close> is the array of line 62, of
  which every round takes a copy (\<^verbatim>\<open>repetitions.slice()\<close>).
\<close>

partial_function (option) generate_loop ::
  "options \<Rightarrow> segment list \<Rightarrow> nat \<Rightarrow> number list \<Rightarrow> string list \<Rightarrow> object \<Rightarrow> real stream
     \<Rightarrow> (error + string list) option" where
  "generate_loop options segs howMany repetitions generated existingCodes rnd =
     (if length generated < howMany then
        (case replace options segs repetitions rnd of
           None \<Rightarrow> None
         | Some (code, rnd') \<Rightarrow>
             (case hasOwnProperty existingCodes code of
                Inl e \<Rightarrow> Some (Inl e)
              | Inr present \<Rightarrow>
                  if \<not> present
                  then generate_loop options segs howMany repetitions (generated @ [code])
                         (set_property existingCodes code) rnd'
                  else generate_loop options segs howMany repetitions generated
                         existingCodes rnd'))
      else Some (Inr generated))"

subsection \<open>generateCodes\<close>

text \<open>
  \<^verbatim>\<open>howMany || 1\<close>: an omitted argument (\<open>None\<close>) and 0 become 1.

  \<^verbatim>\<open>repetitions\<close> is declared with \<^verbatim>\<open>const\<close> (line 62). The assignment of line 68
  evaluates its right-hand side and then throws a \<^verbatim>\<open>TypeError\<close>, as every
  assignment to a constant binding does.

  The two scaled counts are \<^verbatim>\<open>Math.ceil\<close> of a product of numbers: the product is
  rounded to a double before the ceiling is taken (\<^verbatim>\<open>3000 * 1.1\<close> is
  \<^verbatim>\<open>3300.0000000000005\<close>, with the ceiling 3301).
\<close>

definition generateCodes ::
  "lastIndex \<Rightarrow> real stream \<Rightarrow> string \<Rightarrow> nat option \<Rightarrow> user_options
     \<Rightarrow> (error + string list) option" where
  "generateCodes li rnd pattern howMany opts =
     (let options = mergeOptions defaultOptions opts;
          options = (if sparsity options < 1 then options\<lparr>sparsity := 1\<rparr> else options);
          howMany = (case howMany of None \<Rightarrow> 1 | Some n \<Rightarrow> if n = 0 then 1 else n);
          howManySparse = \<lceil>double (real howMany * sparsity options)\<rceil>;
          repetitions = [];
          existingCodes = loadExistingCodes pattern options;
          existingCount = length existingCodes;
          existingCountSparse = \<lceil>double (real existingCount * sparsity options)\<rceil>
      in if fst (hasMorePlaceholder li pattern) then
           (case calculateRepetitions pattern howManySparse existingCountSparse options of
              value \<Rightarrow> Some (Inl (TypeError ''Assignment to constant variable.'')))
         else
           (case checkRequestedCode pattern options existingCountSparse howManySparse
                   howMany existingCount of
              Inl e \<Rightarrow> Some (Inl e)
            | Inr u \<Rightarrow>
                (let combinedRegexp =
                       combineRegexps [alphanumericMoreRegex, numericMoreRegex,
                                       alphanumericRegex, numericRegex]
                 in generate_loop options (segments combinedRegexp pattern) howMany
                      repetitions [] existingCodes rnd)))"

text \<open>
  The state of the two expressions after a call of \<^verbatim>\<open>generateCodes\<close>:
  \<^verbatim>\<open>calculateRepetitions\<close> calls \<^verbatim>\<open>pattern.match\<close> with both, which leaves their
  \<^verbatim>\<open>lastIndex\<close> at 0; the other path does not touch them after the test.
\<close>

definition generateCodes_lastIndex :: "lastIndex \<Rightarrow> string \<Rightarrow> lastIndex" where
  "generateCodes_lastIndex li pattern =
     (case hasMorePlaceholder li pattern of
        (True, li') \<Rightarrow> \<lparr>alphanumericMore_lastIndex = 0, numericMore_lastIndex = 0\<rparr>
      | (False, li') \<Rightarrow> li')"

subsection \<open>Notions of the specification\<close>

text \<open>
  A pattern contains a variable-length placeholder when \<^verbatim>\<open>*+\<close> or \<^verbatim>\<open>#+\<close> occurs in
  it as a substring.
\<close>

fun has_variable_placeholder :: "string \<Rightarrow> bool" where
  "has_variable_placeholder (x # y # s) =
     ((x = CHR ''*'' \<or> x = CHR ''#'') \<and> y = CHR ''+'' \<or> has_variable_placeholder (y # s))"
| "has_variable_placeholder s = False"

text \<open>The contract of \<^verbatim>\<open>Math.random\<close>: every number drawn is in \<open>[0, 1)\<close>.\<close>

definition Math_random :: "real stream \<Rightarrow> bool" where
  "Math_random rnd = (\<forall>r \<in> sset rnd. 0 \<le> r \<and> r < 1)"

text \<open>The comparison \<^verbatim>\<open><\<close> of JavaScript on the values of \<open>number\<close>.\<close>

fun number_less :: "number \<Rightarrow> number \<Rightarrow> bool" where
  "number_less NaN y = False"
| "number_less x NaN = False"
| "number_less (Finite a) (Finite b) = (a < b)"
| "number_less (Finite a) PosInfinity = True"
| "number_less (Finite a) NegInfinity = False"
| "number_less PosInfinity y = False"
| "number_less NegInfinity NegInfinity = False"
| "number_less NegInfinity y = True"

text \<open>
  A fixed placeholder of the kind \<open>c\<close> (\<^verbatim>\<open>#\<close> or \<^verbatim>\<open>*\<close>) occurs in a pattern where the
  character \<open>c\<close> is not followed by a plus sign.
\<close>

fun has_fixed_placeholder :: "char \<Rightarrow> string \<Rightarrow> bool" where
  "has_fixed_placeholder c [] = False"
| "has_fixed_placeholder c [x] = (x = c)"
| "has_fixed_placeholder c (x # y # s) =
     (x = c \<and> y \<noteq> CHR ''+'' \<or> has_fixed_placeholder c (y # s))"

text \<open>
  Shape conformance, read off the pattern itself with the longest token first: \<^verbatim>\<open>*+\<close>
  and \<^verbatim>\<open>#+\<close> stand for any number of characters of their alphabet, \<^verbatim>\<open>*\<close> and \<^verbatim>\<open>#\<close>
  for exactly one character of their alphabet, every other character for itself.
\<close>

fun matches_pattern :: "string \<Rightarrow> string \<Rightarrow> string \<Rightarrow> string \<Rightarrow> bool" where
  "matches_pattern alphanumeric numeric [] code = (code = [])"
| "matches_pattern alphanumeric numeric (x # p) code =
     (if x = CHR ''*'' \<or> x = CHR ''#'' then
        (let alphabet = (if x = CHR ''*'' then alphanumeric else numeric)
         in case p of
              [] \<Rightarrow> length code = 1 \<and> set code \<subseteq> set alphabet
            | y # p' \<Rightarrow>
                if y = CHR ''+''
                then \<exists>k\<le>length code. set (take k code) \<subseteq> set alphabet \<and>
                       matches_pattern alphanumeric numeric p' (drop k code)
                else code \<noteq> [] \<and> hd code \<in> set alphabet \<and>
                       matches_pattern alphanumeric numeric p (tl code))
      else code \<noteq> [] \<and> hd code = x \<and> matches_pattern alphanumeric numeric p (tl code))"

text \<open>
  The count that a call asks for, and the sparsity it works with, after the two
  adjustments at the start of \<^verbatim>\<open>generateCodes\<close>.
\<close>

definition requested :: "nat option \<Rightarrow> nat" where
  "requested howMany = (case howMany of None \<Rightarrow> 1 | Some n \<Rightarrow> if n = 0 then 1 else n)"

definition clamped_sparsity :: "user_options \<Rightarrow> real" where
  "clamped_sparsity opts = max 1 (sparsity (mergeOptions defaultOptions opts))"


subsection \<open>Data of the examples\<close>

text \<open>The codes \<^verbatim>\<open>00\<close> to \<^verbatim>\<open>94\<close>, and a loader that supplies them.\<close>

definition two_digits :: "nat \<Rightarrow> string" where
  "two_digits n = [''0123456789'' ! (n div 10), ''0123456789'' ! (n mod 10)]"

definition codes_00_94 :: "string list" where
  "codes_00_94 = map two_digits [0..<95]"

definition options_95_existing :: user_options where
  "options_95_existing = no_options\<lparr>user_existingCodesLoader := Some (\<lambda>pattern. codes_00_94)\<rparr>"


text \<open>
  The number that the literal \<^verbatim>\<open>1.1\<close> denotes, the double nearest to \<open>11/10\<close>, and the
  options \<^verbatim>\<open>{sparsity: 1.1}\<close>.
\<close>

definition sparsity_1_1 :: real where
  "sparsity_1_1 = 2476979795053773 / 2251799813685248"

definition options_sparsity_1_1 :: user_options where
  "options_sparsity_1_1 = no_options\<lparr>user_sparsity := Some sparsity_1_1\<rparr>"

text \<open>The alternation that \<^verbatim>\<open>generateCodes\<close> scans the pattern with, written out.\<close>

abbreviation (input) four :: "regexp list" where
  "four \<equiv> [Plus_token CHR ''*'', Plus_token CHR ''#'', Single_token CHR ''*'',
            Single_token CHR ''#'']"

section \<open>Properties\<close>

lemmas regexp_defs =
  alphanumericRegex_def numericRegex_def alphanumericMoreRegex_def numericMoreRegex_def
  combineRegexps_def segments_def String_match_def

lemmas planner_defs =
  countNonRepeatingPermutations_def countPermutations_def checkRequestedCode_def

lemmas call_defs =
  generateCodes_def mergeOptions_def no_options_def defaultOptions_def fresh_def
  hasMorePlaceholder_def RegExp_test_def loadExistingCodes_def convertToObject_def

subsection \<open>Rounding\<close>

text \<open>
  An integer is rounded to itself, and rounding to the nearest integer is monotone.
\<close>

lemma round_half_even_of_int: "round_half_even (of_int m) = m"
  by (simp add: round_half_even_def)

lemma round_half_even_bounds:
  "\<lfloor>x\<rfloor> \<le> round_half_even x" "round_half_even x \<le> \<lfloor>x\<rfloor> + 1"
  by (simp_all add: round_half_even_def Let_def)

lemma round_half_even_mono:
  assumes "x \<le> y"
  shows "round_half_even x \<le> round_half_even y"
proof (cases "\<lfloor>x\<rfloor> = \<lfloor>y\<rfloor>")
  case True
  with assms show ?thesis by (auto simp: round_half_even_def Let_def)
next
  case False
  with assms have "\<lfloor>x\<rfloor> + 1 \<le> \<lfloor>y\<rfloor>" using floor_mono [OF assms] by linarith
  with round_half_even_bounds(2) [of x] round_half_even_bounds(1) [of y]
  show ?thesis by linarith
qed

text \<open>
  The value of \<open>double x\<close> once the powers of two around \<open>x\<close> are known; this is how
  the roundings of the examples are computed.
\<close>

lemma powi_powr: "(2::real) powi e = 2 powr of_int e"
  by (simp add: powr_real_of_int power_int_def power_one_over inverse_eq_divide)

lemma power_int_neg_numeral: "(2::real) powi (- numeral w) = 1 / 2 ^ numeral w"
  by (simp add: power_int_def power_one_over)

lemma double_binade:
  assumes "2 powi e \<le> \<bar>x\<bar>" and "\<bar>x\<bar> < 2 powi (e + 1)"
  shows "double x = 2 powi (e - 52) * of_int (round_half_even (x / 2 powi (e - 52)))"
proof -
  have "0 < (2::real) powi e" by simp
  with assms(1) have pos: "0 < \<bar>x\<bar>" by linarith
  then have "\<lfloor>log 2 \<bar>x\<bar>\<rfloor> = e"
    using assms by (simp add: floor_log_eq_powr_iff powi_powr)
  with pos show ?thesis by (auto simp: double_def Let_def)
qed

lemma binade_exists:
  assumes "x \<noteq> 0"
  shows "2 powi \<lfloor>log 2 \<bar>x\<bar>\<rfloor> \<le> \<bar>x\<bar>" and "\<bar>x\<bar> < 2 powi (\<lfloor>log 2 \<bar>x\<bar>\<rfloor> + 1)"
proof -
  from assms have "0 < \<bar>x\<bar>" by simp
  then have "\<lfloor>log 2 \<bar>x\<bar>\<rfloor> = \<lfloor>log 2 \<bar>x\<bar>\<rfloor> \<longleftrightarrow>
      2 powr of_int \<lfloor>log 2 \<bar>x\<bar>\<rfloor> \<le> \<bar>x\<bar> \<and> \<bar>x\<bar> < 2 powr of_int (\<lfloor>log 2 \<bar>x\<bar>\<rfloor> + 1)"
    by (intro floor_log_eq_powr_iff) simp_all
  then show "2 powi \<lfloor>log 2 \<bar>x\<bar>\<rfloor> \<le> \<bar>x\<bar>" and "\<bar>x\<bar> < 2 powi (\<lfloor>log 2 \<bar>x\<bar>\<rfloor> + 1)"
    by (simp_all add: powi_powr)
qed

text \<open>
  Every integer below \<open>2 ^ 53\<close> in magnitude is a double: the counts of the capacity
  check are not rounded while they stay below this bound.
\<close>

lemma double_of_int:
  assumes "\<bar>k\<bar> < 2 ^ 53"
  shows "double (of_int k) = of_int k"
proof (cases "k = 0")
  case True
  then show ?thesis by (simp add: double_def)
next
  case False
  define e where "e = \<lfloor>log 2 \<bar>real_of_int k\<bar>\<rfloor>"
  from False have k1: "1 \<le> \<bar>real_of_int k\<bar>"
    by (cases "0 \<le> k") auto
  then have "0 \<le> log 2 \<bar>real_of_int k\<bar>" by simp
  then have e0: "0 \<le> e" by (simp add: e_def)
  from assms have "\<bar>real_of_int k\<bar> < 2 ^ 53"
    by (metis of_int_abs of_int_less_numeral_power_cancel_iff)
  then have "\<bar>real_of_int k\<bar> < 2 powr 53" by simp
  with k1 have "log 2 \<bar>real_of_int k\<bar> < 53"
    by (simp add: log_less_iff)
  then have e52: "e \<le> 52" by (simp add: e_def floor_le_iff)
  define n where "n = nat (52 - e)"
  from e52 have ulp: "(2::real) powi (e - 52) = 1 / 2 ^ n"
    by (simp add: power_int_def n_def field_simps)
  have "real_of_int k / (1 / 2 ^ n) = of_int (k * 2 ^ n)" by simp
  then have "round_half_even (real_of_int k / (1 / 2 ^ n)) = k * 2 ^ n"
    by (simp only: round_half_even_of_int)
  with False ulp show ?thesis
    by (simp add: double_def Let_def e_def [symmetric])
qed

lemma double_of_nat: "n < 2 ^ 53 \<Longrightarrow> double (real n) = real n"
  using double_of_int [of "int n"] by simp

lemma double_simps [simp]: "double 0 = 0" "double 1 = 1"
  using double_of_int [of 0] double_of_int [of 1] by simp_all

lemma double_numeral [simp]:
  "numeral w < (2::int) ^ 53 \<Longrightarrow> double (numeral w) = numeral w"
  using double_of_int [of "numeral w"] by simp

lemma double_neg_numeral [simp]:
  "numeral w < (2::int) ^ 53 \<Longrightarrow> double (- numeral w) = - numeral w"
  using double_of_int [of "- numeral w"] by simp

text \<open>
  Rounding keeps a positive number between the powers of two around it, and it is
  monotone on the positive numbers.
\<close>

lemma double_in_binade:
  assumes "2 powi e \<le> x" and "x < 2 powi (e + 1)"
  shows "2 powi e \<le> double x" and "double x \<le> 2 powi (e + 1)"
proof -
  define u :: real where "u = 2 powi (e - 52)"
  have u: "0 < u" by (simp add: u_def)
  have "0 < (2::real) powi e" by simp
  with assms(1) have x: "0 < x" by linarith
  have d: "double x = u * of_int (round_half_even (x / u))"
    unfolding u_def using assms x by (intro double_binade) simp_all
  have lo: "u * of_int (2 ^ 52) = 2 powi e" and hi: "u * of_int (2 ^ 53) = 2 powi (e + 1)"
    by (simp_all add: u_def power_int_diff power_int_add)
  have "of_int (2 ^ 52) \<le> x / u"
    using assms(1) u lo by (simp add: pos_le_divide_eq mult.commute)
  then have "round_half_even (of_int (2 ^ 52)) \<le> round_half_even (x / u)"
    by (rule round_half_even_mono)
  then have "(2::int) ^ 52 \<le> round_half_even (x / u)"
    by (simp only: round_half_even_of_int)
  then have "u * of_int (2 ^ 52) \<le> u * of_int (round_half_even (x / u))"
    using u by (simp only: mult_le_cancel_left_pos of_int_le_iff)
  with d lo show "2 powi e \<le> double x" by simp
  have "x / u \<le> of_int (2 ^ 53)"
    using assms(2) u hi by (simp add: pos_divide_le_eq mult.commute)
  then have "round_half_even (x / u) \<le> round_half_even (of_int (2 ^ 53))"
    by (rule round_half_even_mono)
  then have "round_half_even (x / u) \<le> (2::int) ^ 53"
    by (simp only: round_half_even_of_int)
  then have "u * of_int (round_half_even (x / u)) \<le> u * of_int (2 ^ 53)"
    using u by (simp only: mult_le_cancel_left_pos of_int_le_iff)
  with d hi show "double x \<le> 2 powi (e + 1)" by simp
qed

lemma double_mono:
  assumes "0 < x" and "x \<le> y"
  shows "double x \<le> double y"
proof -
  define e where "e = \<lfloor>log 2 \<bar>x\<bar>\<rfloor>"
  define e' where "e' = \<lfloor>log 2 \<bar>y\<bar>\<rfloor>"
  from assms have y: "0 < y" by simp
  have bounds_x: "2 powi e \<le> x" "x < 2 powi (e + 1)"
    using binade_exists [of x] assms(1) by (simp_all add: e_def)
  have bounds_y: "2 powi e' \<le> y" "y < 2 powi (e' + 1)"
    using binade_exists [of y] y by (simp_all add: e'_def)
  have "e \<le> e'"
    using assms by (simp add: e_def e'_def floor_mono)
  show ?thesis
  proof (cases "e = e'")
    case True
    have "x / 2 powi (e - 52) \<le> y / 2 powi (e - 52)"
      using assms(2) by (simp add: divide_right_mono)
    then have "round_half_even (x / 2 powi (e - 52)) \<le> round_half_even (y / 2 powi (e - 52))"
      by (rule round_half_even_mono)
    moreover have "double x = 2 powi (e - 52) * of_int (round_half_even (x / 2 powi (e - 52)))"
      using bounds_x assms(1) by (intro double_binade) simp_all
    moreover have "double y = 2 powi (e - 52) * of_int (round_half_even (y / 2 powi (e - 52)))"
      using bounds_y y True by (intro double_binade) simp_all
    ultimately show ?thesis by simp
  next
    case False
    with \<open>e \<le> e'\<close> have "e + 1 \<le> e'" by simp
    then have "(2::real) powi (e + 1) \<le> 2 powi e'"
      by (intro power_int_increasing) simp_all
    with double_in_binade(2) [OF bounds_x] double_in_binade(1) [OF bounds_y] show ?thesis by linarith
  qed
qed

text \<open>
  The roundings of the examples with the sparsity \<^verbatim>\<open>1.1\<close>: \<^verbatim>\<open>1.1\<close> itself is a
  double, \<^verbatim>\<open>30 * 1.1\<close> is \<^verbatim>\<open>33\<close>, \<^verbatim>\<open>3000 * 1.1\<close> is \<^verbatim>\<open>3300.0000000000005\<close> and
  \<^verbatim>\<open>3300 / 1.1\<close> is \<^verbatim>\<open>2999.9999999999995\<close>.
\<close>

lemma sparsity_1_1_bounds: "1 \<le> sparsity_1_1" "sparsity_1_1 < 2" "\<not> sparsity_1_1 < 1"
  by (simp_all add: sparsity_1_1_def)




lemma double_30_sparsity_1_1: "double (30 * sparsity_1_1) = 33"
proof -
  have "double (30 * sparsity_1_1)
          = 2 powi (5 - 52) * of_int (round_half_even (30 * sparsity_1_1 / 2 powi (5 - 52)))"
    by (rule double_binade) (simp_all add: sparsity_1_1_def)
  also have "\<dots> = 33"
    by (simp add: sparsity_1_1_def power_int_neg_numeral round_half_even_def)
  finally show ?thesis .
qed

lemma double_3000_sparsity_1_1:
  "double (3000 * sparsity_1_1) = 7256776743321601 / 2199023255552"
proof -
  have "double (3000 * sparsity_1_1)
          = 2 powi (11 - 52) * of_int (round_half_even (3000 * sparsity_1_1 / 2 powi (11 - 52)))"
    by (rule double_binade) (simp_all add: sparsity_1_1_def)
  also have "\<dots> = 7256776743321601 / 2199023255552"
    by (simp add: sparsity_1_1_def power_int_neg_numeral round_half_even_def)
  finally show ?thesis .
qed

lemma double_3300_by_sparsity_1_1:
  "double (3300 / sparsity_1_1) = 6597069766655999 / 2199023255552"
proof -
  have "double (3300 / sparsity_1_1)
          = 2 powi (11 - 52) * of_int (round_half_even (3300 / sparsity_1_1 / 2 powi (11 - 52)))"
    by (rule double_binade) (simp_all add: sparsity_1_1_def)
  also have "\<dots> = 6597069766655999 / 2199023255552"
    by (simp add: sparsity_1_1_def power_int_neg_numeral round_half_even_def)
  finally show ?thesis .
qed

lemma scaled_3000_sparsity_1_1:
  "\<lceil>double (3000 * sparsity_1_1)\<rceil> = 3301" "round (double (3300 / sparsity_1_1)) = 3000"
  by (simp_all add: double_3000_sparsity_1_1 double_3300_by_sparsity_1_1 ceiling_eq_iff
      round_def floor_eq_iff)

subsection \<open>The adjusted arguments\<close>

text \<open>
  A count of 1 or more and a sparsity of 1 or more are taken as the caller gives them.
\<close>

lemma requested_positive: "1 \<le> n \<Longrightarrow> requested (Some n) = n"
  by (simp add: requested_def)

lemma requested_default: "requested (Some 0) = 1" "requested None = 1"
  by (simp_all add: requested_def)

lemma clamped_sparsity_given:
  "1 \<le> sparsity (mergeOptions defaultOptions opts)
     \<Longrightarrow> clamped_sparsity opts = sparsity (mergeOptions defaultOptions opts)"
  by (simp add: clamped_sparsity_def)

lemma clamped_sparsity_default: "clamped_sparsity no_options = 1"
  by (simp add: clamped_sparsity_def mergeOptions_def no_options_def defaultOptions_def)

subsection \<open>The tests of hasMorePlaceholder\<close>

lemma search_Plus_token_None:
  "\<not> has_variable_placeholder s \<Longrightarrow> c = CHR ''*'' \<or> c = CHR ''#''
     \<Longrightarrow> search (Plus_token c) s = None"
  by (induction s rule: has_variable_placeholder.induct) auto

lemma search_Plus_token_Some:
  "has_variable_placeholder s \<Longrightarrow>
     search (Plus_token CHR ''*'') s \<noteq> None \<or> search (Plus_token CHR ''#'') s \<noteq> None"
  by (induction s rule: has_variable_placeholder.induct) (auto split: option.splits)

lemma has_variable_placeholder_Cons:
  "has_variable_placeholder s \<Longrightarrow> has_variable_placeholder (x # s)"
  by (cases s) auto

lemma has_variable_placeholder_drop:
  "has_variable_placeholder (drop n s) \<Longrightarrow> has_variable_placeholder s"
proof (induction s arbitrary: n)
  case Nil
  then show ?case by simp
next
  case (Cons x s)
  show ?case
  proof (cases n)
    case 0
    with Cons.prems show ?thesis by simp
  next
    case (Suc m)
    with Cons.prems have "has_variable_placeholder (drop m s)" by simp
    then have "has_variable_placeholder s" by (rule Cons.IH)
    then show ?thesis by (rule has_variable_placeholder_Cons)
  qed
qed

lemma RegExp_test_no_placeholder:
  assumes "\<not> has_variable_placeholder p" and "c = CHR ''*'' \<or> c = CHR ''#''"
  shows "RegExp_test (Plus_token c) n p = (False, 0)"
proof -
  from assms(1) have "\<not> has_variable_placeholder (drop n p)"
    using has_variable_placeholder_drop by blast
  then have "search (Plus_token c) (drop n p) = None"
    using assms(2) by (rule search_Plus_token_None)
  then show ?thesis by (simp add: RegExp_test_def)
qed

text \<open>
  On a pattern without a variable-length placeholder both tests fail, whatever the
  state of the two expressions, and leave it fresh.
\<close>

lemma hasMorePlaceholder_no_placeholder:
  "\<not> has_variable_placeholder p \<Longrightarrow>
     hasMorePlaceholder li p
       = (False, \<lparr>alphanumericMore_lastIndex = 0, numericMore_lastIndex = 0\<rparr>)"
  by (simp add: hasMorePlaceholder_def alphanumericMoreRegex_def numericMoreRegex_def
      RegExp_test_no_placeholder)

text \<open>With both \<^verbatim>\<open>lastIndex\<close> at 0 the answer is the one the documentation gives.\<close>

lemma hasMorePlaceholder_fresh:
  "fst (hasMorePlaceholder fresh p) = has_variable_placeholder p"
proof (cases "has_variable_placeholder p")
  case False
  then show ?thesis by (simp add: hasMorePlaceholder_no_placeholder)
next
  case True
  from search_Plus_token_Some [OF True] show ?thesis
    using True
    by (auto simp: hasMorePlaceholder_def fresh_def RegExp_test_def alphanumericMoreRegex_def
        numericMoreRegex_def split: option.splits bool.splits prod.splits)
qed

text \<open>
  A call of \<^verbatim>\<open>generateCodes\<close> that starts with both \<^verbatim>\<open>lastIndex\<close> at 0 ends with
  both at 0: between two calls of \<^verbatim>\<open>generateCodes\<close> the state is fresh again.
\<close>

lemma generateCodes_lastIndex_fresh: "generateCodes_lastIndex fresh p = fresh"
proof (cases "has_variable_placeholder p")
  case False
  then show ?thesis
    by (simp add: generateCodes_lastIndex_def hasMorePlaceholder_no_placeholder fresh_def)
next
  case True
  then have "fst (hasMorePlaceholder fresh p)" by (simp add: hasMorePlaceholder_fresh)
  then show ?thesis
    by (auto simp: generateCodes_lastIndex_def fresh_def split: prod.splits bool.splits)
qed

text \<open>
  The state that calls of \<^verbatim>\<open>generateCodes\<close> leave behind, one after the other from
  the load of the module on, is the fresh one: \<^verbatim>\<open>generateCodes\<close> holds the only call
  of \<^verbatim>\<open>hasMorePlaceholder\<close>, so \<^verbatim>\<open>hasMorePlaceholder\<close> never starts from another
  state.
\<close>

lemma generateCodes_lastIndex_reachable: "foldl generateCodes_lastIndex fresh ps = fresh"
  by (induction ps) (simp_all add: generateCodes_lastIndex_fresh)

text \<open>
  Outside these states the function is not a function of the pattern alone: the
  expressions carry the flag \<^verbatim>\<open>g\<close>, so \<^verbatim>\<open>test\<close> starts at \<^verbatim>\<open>lastIndex\<close> and moves
  it. Two calls in a row, with no \<^verbatim>\<open>pattern.match\<close> in between, answer true and then
  false on the pattern \<^verbatim>\<open>#+\<close>, and from such a state \<^verbatim>\<open>generateCodes\<close> would take the
  fixed-only path. The module has no such sequence of calls.
\<close>

lemma hasMorePlaceholder_second_call:
  "fst (hasMorePlaceholder fresh ''#+'') = True \<and>
   fst (hasMorePlaceholder (snd (hasMorePlaceholder fresh ''#+'')) ''#+'') = False"
  by (simp add: call_defs regexp_defs)

lemma generateCodes_stale_lastIndex:
  "generateCodes \<lparr>alphanumericMore_lastIndex = 0, numericMore_lastIndex = 2\<rparr> rnd ''#+''
     (Some 1) no_options = Some (Inl (CapacityError 1 0 0 1))"
  by (simp add: call_defs planner_defs regexp_defs)

text \<open>
  C4. In the default configuration, after any sequence \<open>ps\<close> of earlier calls of
  \<^verbatim>\<open>generateCodes\<close> on the freshly loaded module, \<^verbatim>\<open>hasMorePlaceholder\<close> is true if and
  only if the pattern contains \<^verbatim>\<open>#+\<close> or \<^verbatim>\<open>*+\<close>. So the result depends only on the
  pattern: a later call with the same pattern, whatever calls \<open>ps'\<close> come in between,
  gives the same answer.
\<close>

theorem hasMorePlaceholder_pattern_only:
  "fst (hasMorePlaceholder (foldl generateCodes_lastIndex fresh ps) pattern)
     = has_variable_placeholder pattern \<and>
   fst (hasMorePlaceholder (foldl generateCodes_lastIndex fresh (ps @ pattern # ps')) pattern)
     = fst (hasMorePlaceholder (foldl generateCodes_lastIndex fresh ps) pattern)"
  by (simp only: generateCodes_lastIndex_reachable hasMorePlaceholder_fresh simp_thms)

theorem hasMorePlaceholder_pattern_only_witness:
  "fst (hasMorePlaceholder (foldl generateCodes_lastIndex fresh [''V-#+'', ''##'']) ''V-#+'') \<and>
   fst (hasMorePlaceholder
          (foldl generateCodes_lastIndex fresh ([''V-#+'', ''##''] @ ''V-#+'' # [''A*+'']))
          ''V-#+'') \<and>
   \<not> fst (hasMorePlaceholder (foldl generateCodes_lastIndex fresh [''V-#+'', ''A*+'']) ''##'')"
  using hasMorePlaceholder_pattern_only [of "[''V-#+'', ''##'']" "''V-#+''" "[''A*+'']"]
    hasMorePlaceholder_pattern_only [of "[''V-#+'', ''A*+'']" "''##''" "[]"]
  by simp

subsection \<open>The variable-length path\<close>

text \<open>
  On a freshly loaded module every pattern with a variable-length placeholder ends in
  the \<^verbatim>\<open>TypeError\<close> of line 68.
\<close>

lemma generateCodes_variable_placeholder_throws:
  "has_variable_placeholder pattern \<Longrightarrow>
     generateCodes fresh rnd pattern howMany opts
       = Some (Inl (TypeError ''Assignment to constant variable.''))"
  by (simp add: generateCodes_def hasMorePlaceholder_fresh Let_def)

text \<open>
  C1. The claim: for every pattern with a variable-length placeholder
  \<^verbatim>\<open>generateCodes\<close> completes without an error, and for the pattern \<^verbatim>\<open>V-#+\<close> with the
  default options and \<open>howMany = 50\<close> it returns 50 distinct codes. The code does not:
  on a freshly loaded module the call computes the repetitions and then throws the
  \<^verbatim>\<open>TypeError\<close> of the assignment to the constant \<^verbatim>\<open>repetitions\<close>, whatever the random
  source.
\<close>

theorem generateCodes_V_throws:
  "generateCodes fresh rnd ''V-#+'' (Some 50) no_options
     = Some (Inl (TypeError ''Assignment to constant variable.''))"
  by (simp add: call_defs regexp_defs)

subsection \<open>A pattern without placeholders\<close>

text \<open>
  C2, as the claim states it, fails: the call for one code of the pattern \<^verbatim>\<open>FIXED\<close>
  does not return \<^verbatim>\<open>["FIXED"]\<close>.
\<close>

theorem FIXED_counterexample:
  "generateCodes fresh (sconst 0) ''FIXED'' (Some 1) no_options \<noteq> Some (Inr [''FIXED''])"
  by (simp add: call_defs planner_defs regexp_defs)

text \<open>
  C2, amended. \<^verbatim>\<open>countPermutations\<close> is 0 for a kind of placeholder that does not
  occur, so a pattern without placeholders counts 0 permutations. For the pattern
  \<^verbatim>\<open>FIXED\<close> with the default options, \<^verbatim>\<open>generateCodes\<close> fails with the capacity error
  that reports the maximum 0, for \<open>howMany = 1\<close> as for \<open>howMany = 2\<close>, whatever the
  random source and the state of the expressions.
\<close>

theorem FIXED_fails:
  "generateCodes li rnd ''FIXED'' (Some 1) no_options = Some (Inl (CapacityError 1 0 0 1)) \<and>
   generateCodes li rnd ''FIXED'' (Some 2) no_options = Some (Inl (CapacityError 2 0 0 1))"
  by (simp add: generateCodes_def hasMorePlaceholder_no_placeholder mergeOptions_def
      no_options_def defaultOptions_def loadExistingCodes_def convertToObject_def
      planner_defs regexp_defs)

subsection \<open>randomChars\<close>

lemma Math_random_stl: "Math_random rnd \<Longrightarrow> Math_random (stl rnd)"
  by (auto simp: Math_random_def dest: stl_sset)

lemma Math_random_shd: "Math_random rnd \<Longrightarrow> 0 \<le> shd rnd \<and> shd rnd < 1"
  by (simp add: Math_random_def shd_sset)

lemma random_index:
  fixes r :: real
  assumes "0 \<le> r" "r < 1" "0 < n"
  shows "0 \<le> \<lfloor>r * real n\<rfloor> \<and> \<lfloor>r * real n\<rfloor> < int n"
proof
  from assms show "0 \<le> \<lfloor>r * real n\<rfloor>" by simp
  from assms have "r * real n < real n" by simp
  then show "\<lfloor>r * real n\<rfloor> < int n" by (simp add: floor_less_iff)
qed

lemma charAt_subset: "set (charAt s i) \<subseteq> set s"
  by (auto simp: charAt_def)

lemma charAt_random:
  "Math_random rnd \<Longrightarrow> s \<noteq> [] \<Longrightarrow> length (charAt s \<lfloor>shd rnd * real (length s)\<rfloor>) = 1"
  using random_index [of "shd rnd" "length s"] Math_random_shd [of rnd]
  by (simp add: charAt_def)

lemma randomChars_loop_subset:
  "randomChars_loop rnd allowedChars n = (str, rnd') \<Longrightarrow> set str \<subseteq> set allowedChars"
proof (induction n arbitrary: rnd str rnd')
  case 0
  then show ?case by simp
next
  case (Suc n)
  obtain t r where rec: "randomChars_loop (stl rnd) allowedChars n = (t, r)"
    by (cases "randomChars_loop (stl rnd) allowedChars n")
  with Suc.prems have "str = charAt allowedChars \<lfloor>shd rnd * real (length allowedChars)\<rfloor> @ t"
    by (simp add: Let_def)
  moreover from rec have "set t \<subseteq> set allowedChars" by (rule Suc.IH)
  ultimately show ?case using charAt_subset [of allowedChars] by auto
qed

lemma randomChars_loop_random:
  "Math_random rnd \<Longrightarrow> Math_random (snd (randomChars_loop rnd allowedChars n))"
proof (induction n arbitrary: rnd)
  case 0
  then show ?case by simp
next
  case (Suc n)
  from Suc.prems have "Math_random (stl rnd)" by (rule Math_random_stl)
  then have "Math_random (snd (randomChars_loop (stl rnd) allowedChars n))" by (rule Suc.IH)
  then show ?case by (auto simp: Let_def split: prod.splits)
qed

lemma randomChars_loop_length:
  "Math_random rnd \<Longrightarrow> allowedChars \<noteq> [] \<Longrightarrow>
     length (fst (randomChars_loop rnd allowedChars n)) = n"
proof (induction n arbitrary: rnd)
  case 0
  then show ?case by simp
next
  case (Suc n)
  from Suc.prems have "Math_random (stl rnd)" by (simp add: Math_random_stl)
  then have "length (fst (randomChars_loop (stl rnd) allowedChars n)) = n"
    using Suc.prems(2) by (rule Suc.IH)
  then show ?case
    using charAt_random [OF Suc.prems]
    by (auto simp: Let_def split: prod.splits)
qed

lemma Math_random_sconst: "Math_random (sconst 0)"
  by (simp add: Math_random_def)

text \<open>
  C9, as the claim states it, fails for the empty alphabet: \<^verbatim>\<open>charAt\<close> finds no
  character, so the string that \<^verbatim>\<open>randomChars('', 1)\<close> returns is empty and its length
  is not 1.
\<close>

theorem randomChars_empty_alphabet_counterexample:
  "randomChars (sconst 0) '''' (Some (Finite 1)) = Some ('''', sconst 0)"
  by (simp add: randomChars_def charAt_def)

text \<open>
  C9, amended. For every alphabet that is not empty and every count \<open>\<ge> 0\<close>,
  \<^verbatim>\<open>randomChars(alphabet, count)\<close> returns a string of exactly \<open>count\<close> characters, each
  of them a member of the alphabet (the random source obeys the contract of
  \<^verbatim>\<open>Math.random\<close>).
\<close>

theorem randomChars_length_and_alphabet:
  assumes "Math_random rnd" and "allowedChars \<noteq> []"
  shows "\<exists>text rnd'. randomChars rnd allowedChars (Some (Finite (int count))) = Some (text, rnd')
           \<and> length text = count \<and> set text \<subseteq> set allowedChars"
proof -
  obtain str rnd' where run: "randomChars_loop rnd allowedChars count = (str, rnd')"
    by (cases "randomChars_loop rnd allowedChars count")
  then have "randomChars rnd allowedChars (Some (Finite (int count))) = Some (str, rnd')"
    by (simp add: randomChars_def)
  moreover from randomChars_loop_length [OF assms, of count] run have "length str = count"
    by simp
  moreover from run have "set str \<subseteq> set allowedChars" by (rule randomChars_loop_subset)
  ultimately show ?thesis by blast
qed

theorem randomChars_length_and_alphabet_witness:
  "Math_random (sconst 0) \<and> ''0123456789'' \<noteq> [] \<and>
   (\<exists>text rnd'. randomChars (sconst 0) ''0123456789'' (Some (Finite (int 3))) = Some (text, rnd')
      \<and> length text = 3 \<and> set text \<subseteq> set ''0123456789'')"
  using randomChars_length_and_alphabet [of "sconst 0" "''0123456789''" 3]
  by (simp add: Math_random_sconst)

subsection \<open>Substitution\<close>

lemma randomChars_props:
  assumes "randomChars rnd allowedChars n = Some (str, rnd')"
  shows "set str \<subseteq> set allowedChars" and "Math_random rnd \<Longrightarrow> Math_random rnd'"
proof -
  from assms obtain k where k: "randomChars_loop rnd allowedChars k = (str, rnd')"
    by (auto simp: randomChars_def split: option.splits)
  then show "set str \<subseteq> set allowedChars" by (rule randomChars_loop_subset)
  show "Math_random rnd'" if "Math_random rnd"
    using randomChars_loop_random [OF that, of allowedChars k] k by simp
qed

lemma randomChars_one:
  assumes "randomChars rnd allowedChars (Some (Finite 1)) = Some (str, rnd')"
    and "Math_random rnd" and "allowedChars \<noteq> []"
  shows "length str = 1"
proof -
  from assms(1) have "randomChars_loop rnd allowedChars 1 = (str, rnd')"
    by (simp add: randomChars_def)
  with randomChars_loop_length [OF assms(2,3), of 1] show ?thesis by simp
qed

lemma replacement_props:
  assumes "replacement options g rep rnd = Some (str, rep', rnd')" and "Math_random rnd"
  shows "g = 0 \<or> g = 2 \<Longrightarrow> set str \<subseteq> set (alphanumericChars options)"
    and "g = 1 \<or> g = 3 \<Longrightarrow> set str \<subseteq> set (numericChars options)"
    and "g = 2 \<Longrightarrow> alphanumericChars options \<noteq> [] \<Longrightarrow> length str = 1"
    and "g = 3 \<Longrightarrow> numericChars options \<noteq> [] \<Longrightarrow> length str = 1"
    and "g \<le> 3 \<Longrightarrow> Math_random rnd'"
  using assms
  by (auto simp: replacement_def split: if_splits prod.splits
      dest: randomChars_props randomChars_one)

lemma scan_placeholders:
  "scan [Plus_token CHR ''*'', Plus_token CHR ''#'', Single_token CHR ''*'', Single_token CHR ''#'']
     0 (x # p) =
   (let alts = [Plus_token CHR ''*'', Plus_token CHR ''#'', Single_token CHR ''*'',
                Single_token CHR ''#'']
    in if x = CHR ''*'' then
         (case p of [] \<Rightarrow> [Matched 2]
          | y # p' \<Rightarrow> if y = CHR ''+'' then Matched 0 # scan alts 0 p'
                       else Matched 2 # scan alts 0 p)
       else if x = CHR ''#'' then
         (case p of [] \<Rightarrow> [Matched 3]
          | y # p' \<Rightarrow> if y = CHR ''+'' then Matched 1 # scan alts 0 p'
                       else Matched 3 # scan alts 0 p)
       else Literal x # scan alts 0 p)"
  by (cases p) (auto simp: Let_def)


lemma has_fixed_placeholder_Cons:
  "has_fixed_placeholder c p \<Longrightarrow> has_fixed_placeholder c (x # p)"
  by (cases p) auto

lemma replace_Literal:
  "replace options (Literal c # segs) rep rnd = Some (code, rnd') \<Longrightarrow>
     \<exists>code'. code = c # code' \<and> replace options segs rep rnd = Some (code', rnd')"
  by auto

lemma replace_Matched:
  "replace options (Matched g # segs) rep rnd = Some (code, rnd') \<Longrightarrow>
     \<exists>str rep' rnd'' code'. replacement options g rep rnd = Some (str, rep', rnd'') \<and>
        code = str @ code' \<and> replace options segs rep' rnd'' = Some (code', rnd')"
  by (auto split: option.splits)

lemma replace_matches_pattern:
  assumes "replace options (scan four 0 p) rep rnd = Some (code, rnd')"
    and "Math_random rnd"
    and "has_fixed_placeholder CHR ''*'' p \<Longrightarrow> alphanumericChars options \<noteq> []"
    and "has_fixed_placeholder CHR ''#'' p \<Longrightarrow> numericChars options \<noteq> []"
  shows "matches_pattern (alphanumericChars options) (numericChars options) p code
           \<and> Math_random rnd'"
  using assms
proof (induction p arbitrary: rep rnd code rule: length_induct)
  case (1 p)
  let ?A = "alphanumericChars options" and ?N = "numericChars options"
  note IH = 1(1) [rule_format]
  show ?case
  proof (cases p)
    case Nil
    with 1(2,3) show ?thesis by simp
  next
    case (Cons x q)
    consider (more) q' where "x = CHR ''*'' \<or> x = CHR ''#''" "q = CHR ''+'' # q'"
      | (fixed) "x = CHR ''*'' \<or> x = CHR ''#''" "\<forall>q'. q \<noteq> CHR ''+'' # q'"
      | (literal) "x \<noteq> CHR ''*''" "x \<noteq> CHR ''#''"
      by (cases q) auto
    then show ?thesis
    proof cases
      case more
      let ?g = "if x = CHR ''*'' then 0 else (1::nat)"
      let ?alphabet = "if x = CHR ''*'' then ?A else ?N"
      from more Cons have sc: "scan four 0 p = Matched ?g # scan four 0 q'"
        by (auto simp: scan_placeholders simp del: scan.simps(3))
      from 1(2) [unfolded sc] obtain str rep' rnd'' code' where
        r: "replacement options ?g rep rnd = Some (str, rep', rnd'')"
        and code: "code = str @ code'"
        and rest: "replace options (scan four 0 q') rep' rnd'' = Some (code', rnd')"
        by (blast dest: replace_Matched)
      from replacement_props(1,2,5) [OF r 1(3)] have str: "set str \<subseteq> set ?alphabet"
        and rnd'': "Math_random rnd''" by auto
      have "length q' < length p" using Cons more by simp
      moreover have "has_fixed_placeholder c q' \<Longrightarrow> has_fixed_placeholder c p" for c
        using Cons more by (auto intro: has_fixed_placeholder_Cons)
      ultimately have tail: "matches_pattern ?A ?N q' code' \<and> Math_random rnd'"
        using IH [OF _ rest rnd''] 1(4,5) by blast
      have "length str \<le> length code \<and> set (take (length str) code) \<subseteq> set ?alphabet
              \<and> matches_pattern ?A ?N q' (drop (length str) code)"
        using code str tail by simp
      then have "\<exists>k\<le>length code. set (take k code) \<subseteq> set ?alphabet
              \<and> matches_pattern ?A ?N q' (drop k code)"
        by (rule exI [of _ "length str"])
      then show ?thesis using Cons more tail by auto
    next
      case fixed
      let ?g = "if x = CHR ''*'' then 2 else (3::nat)"
      let ?alphabet = "if x = CHR ''*'' then ?A else ?N"
      from fixed Cons have sc: "scan four 0 p = Matched ?g # scan four 0 q"
        by (cases q) (auto simp: scan_placeholders simp del: scan.simps(3))
      from 1(2) [unfolded sc] obtain str rep' rnd'' code' where
        r: "replacement options ?g rep rnd = Some (str, rep', rnd'')"
        and code: "code = str @ code'"
        and rest: "replace options (scan four 0 q) rep' rnd'' = Some (code', rnd')"
        by (blast dest: replace_Matched)
      have here: "has_fixed_placeholder x p" using fixed Cons by (cases q) auto
      with 1(4,5) fixed(1) have ne: "?alphabet \<noteq> []" by auto
      from replacement_props(1,2,5) [OF r 1(3)] have str: "set str \<subseteq> set ?alphabet"
        and rnd'': "Math_random rnd''" by auto
      from replacement_props(3,4) [OF r 1(3)] ne have len: "length str = 1"
        by (auto split: if_splits)
      have "length q < length p" using Cons by simp
      moreover have "has_fixed_placeholder c q \<Longrightarrow> has_fixed_placeholder c p" for c
        using Cons by (simp add: has_fixed_placeholder_Cons)
      ultimately have tail: "matches_pattern ?A ?N q code' \<and> Math_random rnd'"
        using IH [OF _ rest rnd''] 1(4,5) by blast
      from len obtain ch where ch: "str = [ch]" by (cases str) auto
      with code str tail fixed Cons show ?thesis
        by (cases q) auto
    next
      case literal
      from literal Cons have sc: "scan four 0 p = Literal x # scan four 0 q"
        by (simp add: scan_placeholders del: scan.simps(3))
      from 1(2) [unfolded sc] obtain code' where code: "code = x # code'"
        and rest: "replace options (scan four 0 q) rep rnd = Some (code', rnd')"
        by (blast dest: replace_Literal)
      have "length q < length p" using Cons by simp
      moreover have "has_fixed_placeholder c q \<Longrightarrow> has_fixed_placeholder c p" for c
        using Cons by (simp add: has_fixed_placeholder_Cons)
      ultimately have "matches_pattern ?A ?N q code' \<and> Math_random rnd'"
        using IH [OF _ rest 1(3)] 1(4,5) by blast
      with code literal Cons show ?thesis by simp
    qed
  qed
qed


subsection \<open>The loop of generateCodes\<close>

text \<open>
  An invariant of the loop holds of what it returns; an error of the loop is the
  \<^verbatim>\<open>TypeError\<close> of the call of \<^verbatim>\<open>existingCodes.hasOwnProperty\<close>.
\<close>

lemma generate_loop_invariant:
  assumes step: "\<And>generated existingCodes rnd code rnd'.
      \<lbrakk>I generated existingCodes rnd; length generated < howMany;
       replace options segs reps rnd = Some (code, rnd');
       ''hasOwnProperty'' \<notin> set existingCodes\<rbrakk>
      \<Longrightarrow> (if code \<in> set existingCodes then I generated existingCodes rnd'
           else I (generated @ [code]) (set_property existingCodes code) rnd')"
    and run: "generate_loop options segs howMany reps generated existingCodes rnd = Some result"
    and init: "I generated existingCodes rnd"
  shows "case result of
           Inl e \<Rightarrow> e = TypeError ''existingCodes.hasOwnProperty is not a function'' \<and>
             (\<exists>generated' existingCodes' rnd'. I generated' existingCodes' rnd' \<and>
                ''hasOwnProperty'' \<in> set existingCodes')
         | Inr codes \<Rightarrow> howMany \<le> length codes \<and> (\<exists>existingCodes' rnd'. I codes existingCodes' rnd')"
proof -
  let ?post = "\<lambda>result. case result of
           Inl e \<Rightarrow> e = TypeError ''existingCodes.hasOwnProperty is not a function'' \<and>
             (\<exists>generated' existingCodes' rnd'. I generated' existingCodes' rnd' \<and>
                ''hasOwnProperty'' \<in> set existingCodes')
         | Inr codes \<Rightarrow> howMany \<le> length codes \<and> (\<exists>existingCodes' rnd'. I codes existingCodes' rnd')"
  let ?P = "\<lambda>opts sg hm rp gen ex rn result.
      opts = options \<and> sg = segs \<and> hm = howMany \<and> rp = reps \<longrightarrow> I gen ex rn \<longrightarrow> ?post result"
  have "?P options segs howMany reps generated existingCodes rnd result"
  proof (rule generate_loop.raw_induct [where P = ?P, OF _ run], goal_cases)
    case (1 loop opts sg hm rp gen ex rn y)
    show ?case
    proof (intro impI, elim conjE)
      assume eqs: "opts = options" "sg = segs" "hm = howMany" "rp = reps" and inv: "I gen ex rn"
      show "?post y"
      proof (cases "length gen < howMany")
        case False
        with 1(2) eqs have "y = Inr gen" by simp
        with False inv show ?thesis by auto
      next
        case True
        show ?thesis
        proof (cases "replace options segs reps rn")
          case None
          with 1(2) eqs True show ?thesis by simp
        next
          case (Some a)
          obtain code rn' where a: "a = (code, rn')" by (cases a)
          show ?thesis
          proof (cases "''hasOwnProperty'' \<in> set ex")
            case True
            with 1(2) eqs \<open>length gen < howMany\<close> Some a
            have "y = Inl (TypeError ''existingCodes.hasOwnProperty is not a function'')"
              by (auto simp: hasOwnProperty_def)
            with True inv show ?thesis by auto
          next
            case False
            note st = step [OF inv \<open>length gen < howMany\<close> Some [unfolded a] False]
            show ?thesis
            proof (cases "code \<in> set ex")
              case True
              with st have "I gen ex rn'" by simp
              moreover from 1(2) eqs \<open>length gen < howMany\<close> Some a False True
              have "loop options segs howMany reps gen ex rn' = Some y"
                by (simp add: hasOwnProperty_def)
              ultimately show ?thesis using 1(1) by blast
            next
              case notin: False
              with st have "I (gen @ [code]) (set_property ex code) rn'" by simp
              moreover from 1(2) eqs \<open>length gen < howMany\<close> Some a False notin
              have "loop options segs howMany reps (gen @ [code]) (set_property ex code) rn' = Some y"
                by (simp add: hasOwnProperty_def)
              ultimately show ?thesis using 1(1) by blast
            qed
          qed
        qed
      qed
    qed
  qed
  with init show ?thesis by simp
qed

text \<open>The two readings of the invariant: for a run that returns, for a run that throws.\<close>

lemma generate_loop_returns:
  assumes "\<And>generated existingCodes rnd code rnd'.
      \<lbrakk>I generated existingCodes rnd; length generated < howMany;
       replace options segs reps rnd = Some (code, rnd');
       ''hasOwnProperty'' \<notin> set existingCodes\<rbrakk>
      \<Longrightarrow> (if code \<in> set existingCodes then I generated existingCodes rnd'
           else I (generated @ [code]) (set_property existingCodes code) rnd')"
    and "generate_loop options segs howMany reps generated existingCodes rnd = Some (Inr codes)"
    and "I generated existingCodes rnd"
  shows "howMany \<le> length codes" and "\<exists>existingCodes' rnd'. I codes existingCodes' rnd'"
  using generate_loop_invariant [where I = I, OF assms] by simp_all

lemma generate_loop_throws:
  assumes "\<And>generated existingCodes rnd code rnd'.
      \<lbrakk>I generated existingCodes rnd; length generated < howMany;
       replace options segs reps rnd = Some (code, rnd');
       ''hasOwnProperty'' \<notin> set existingCodes\<rbrakk>
      \<Longrightarrow> (if code \<in> set existingCodes then I generated existingCodes rnd'
           else I (generated @ [code]) (set_property existingCodes code) rnd')"
    and "generate_loop options segs howMany reps generated existingCodes rnd = Some (Inl e)"
    and "I generated existingCodes rnd"
  shows "e = TypeError ''existingCodes.hasOwnProperty is not a function''"
    and "\<exists>generated' existingCodes' rnd'. I generated' existingCodes' rnd' \<and>
           ''hasOwnProperty'' \<in> set existingCodes'"
  using generate_loop_invariant [where I = I, OF assms] by simp_all


lemma generate_loop_length:
  assumes "generate_loop options segs howMany reps generated existingCodes rnd = Some (Inr codes)"
    and "length generated \<le> howMany"
  shows "length codes = howMany"
proof -
  have "howMany \<le> length codes"
    by (rule generate_loop_returns(1) [where I = "\<lambda>g e r. True", OF _ assms(1)]) simp_all
  moreover have "\<exists>(e::object) (r::real stream). length codes \<le> howMany"
    by (rule generate_loop_returns(2) [where I = "\<lambda>g e r. length g \<le> howMany", OF _ assms(1)])
      (use assms(2) in auto)
  ultimately show ?thesis by simp
qed

lemma set_set_property:
  "set (set_property obj el) = insert el (set obj)"
  by (auto simp: set_property_def)

lemma generate_loop_unique:
  assumes run: "generate_loop options segs howMany reps [] existingCodes rnd = Some (Inr codes)"
  shows "distinct codes"
    and "\<forall>c \<in> set codes. c \<notin> set existingCodes"
proof -
  let ?I = "\<lambda>g e (r::real stream). distinct g \<and> set g \<subseteq> set e \<and>
      set existingCodes \<subseteq> set e \<and> (\<forall>c \<in> set g. c \<notin> set existingCodes)"
  have "\<exists>existingCodes' rnd'. ?I codes existingCodes' rnd'"
    by (rule generate_loop_returns(2) [where I = ?I, OF _ run])
      (auto simp: set_set_property)
  then show "distinct codes" and "\<forall>c \<in> set codes. c \<notin> set existingCodes"
    by auto
qed

lemma generate_loop_all:
  assumes run: "generate_loop options segs howMany reps generated existingCodes rnd = Some (Inr codes)"
    and gen: "\<forall>c \<in> set generated. Q c"
    and rnd: "R rnd"
    and step: "\<And>rnd code rnd'. R rnd \<Longrightarrow> replace options segs reps rnd = Some (code, rnd')
                 \<Longrightarrow> Q code \<and> R rnd'"
  shows "\<forall>c \<in> set codes. Q c"
proof -
  let ?I = "\<lambda>g (e::object) r. (\<forall>c \<in> set g. Q c) \<and> R r"
  have "\<exists>existingCodes' rnd'. ?I codes existingCodes' rnd'"
  proof (rule generate_loop_returns(2) [where I = ?I, OF _ run], goal_cases)
    case (1 g e r code r')
    with step [of r code r'] show ?case by auto
  next
    case 2
    from gen rnd show ?case by simp
  qed
  then show ?thesis by auto
qed

lemma set_foldl_set_property:
  "set (foldl set_property acc ary) = set acc \<union> set ary"
  by (induction ary arbitrary: acc) (auto simp: set_set_property)

lemma set_convertToObject: "set (convertToObject ary) = set ary"
  by (simp add: convertToObject_def set_foldl_set_property)

text \<open>
  \<^verbatim>\<open>generateCodes\<close> in one piece: the type error of the variable-length path, the
  capacity error of the fixed-only path, or the loop.
\<close>

lemma generateCodes_unfold:
  "generateCodes li rnd pattern howMany opts =
     (let merged = mergeOptions defaultOptions opts;
          s = clamped_sparsity opts;
          h = requested howMany;
          possible = countNonRepeatingPermutations pattern merged;
          existingCodes = loadExistingCodes pattern merged
      in if fst (hasMorePlaceholder li pattern)
         then Some (Inl (TypeError ''Assignment to constant variable.''))
         else if double (real possible - of_int \<lceil>double (real (length existingCodes) * s)\<rceil>)
                   < of_int \<lceil>double (real h * s)\<rceil>
         then Some (Inl (CapacityError h (round (double (real possible / s)))
                           (length existingCodes) s))
         else generate_loop (merged\<lparr>sparsity := s\<rparr>) (scan four 0 pattern) h [] []
                existingCodes rnd)"
proof (cases "sparsity (mergeOptions defaultOptions opts) < 1")
  case True
  then show ?thesis
    by (simp add: generateCodes_def clamped_sparsity_def requested_def planner_defs
        loadExistingCodes_def regexp_defs Let_def max_def)
next
  case False
  then show ?thesis
    by (simp add: generateCodes_def clamped_sparsity_def requested_def planner_defs
        loadExistingCodes_def regexp_defs Let_def max_def)
qed


lemma foldl_set_property_append:
  "distinct xs \<Longrightarrow> set acc \<inter> set xs = {}
     \<Longrightarrow> foldl set_property acc xs = acc @ xs"
proof (induction xs arbitrary: acc)
  case Nil
  then show ?case by simp
next
  case (Cons x xs)
  from Cons.prems have "set_property acc x = acc @ [x]" by (auto simp: set_property_def)
  moreover from Cons.prems have "foldl set_property (acc @ [x]) xs = (acc @ [x]) @ xs"
    by (intro Cons.IH) auto
  ultimately show ?case by simp
qed

lemma convertToObject_distinct:
  "distinct xs \<Longrightarrow> convertToObject xs = xs"
  using foldl_set_property_append [of xs "[]"] by (simp add: convertToObject_def)



subsection \<open>Runs of the examples\<close>

lemmas emitter_defs =
  replacement_def randomChars_def charAt_def hasOwnProperty_def set_property_def

lemma run_collision:
  "generateCodes fresh ([0, 1/10] @- sconst 0) ''#'' (Some 1)
     (no_options\<lparr>user_existingCodesLoader := Some (\<lambda>pattern. [''0''])\<rparr>)
   = Some (Inr [''1''])"
  by (simp add: call_defs planner_defs regexp_defs generate_loop.simps emitter_defs)

lemma run_shape:
  "generateCodes fresh ([3/10, 1/2] @- sconst 0) ''A#-*'' (Some 1) no_options = Some (Inr [''A3-H''])"
  by (simp add: call_defs planner_defs regexp_defs generate_loop.simps emitter_defs)

lemma codes_00_94_facts:
  "distinct codes_00_94" "length codes_00_94 = 95"
  "''hasOwnProperty'' \<notin> set codes_00_94"
  "''95'' \<notin> set codes_00_94" "''96'' \<notin> set codes_00_94" "''97'' \<notin> set codes_00_94"
  "''98'' \<notin> set codes_00_94" "''99'' \<notin> set codes_00_94"
  by code_simp+

lemma loadExistingCodes_95:
  "loadExistingCodes ''##'' (mergeOptions defaultOptions options_95_existing) = codes_00_94"
  by (simp add: loadExistingCodes_def mergeOptions_def options_95_existing_def no_options_def
      convertToObject_distinct codes_00_94_facts)


lemma planner_95:
  "countNonRepeatingPermutations ''##'' (mergeOptions defaultOptions options_95_existing) = 100"
  "clamped_sparsity options_95_existing = 1"
  by (simp_all add: planner_defs regexp_defs clamped_sparsity_def mergeOptions_def
      options_95_existing_def no_options_def defaultOptions_def)



lemma replace_00:
  "replace ((mergeOptions defaultOptions options_95_existing)\<lparr>sparsity := 1\<rparr>)
     (scan four 0 ''##'') [] (sconst 0) = Some (''00'', sconst 0)"
  by (simp add: emitter_defs mergeOptions_def options_95_existing_def no_options_def
      defaultOptions_def)

lemma member_00: "''00'' \<in> set codes_00_94"
  by code_simp

lemma loop_95_stuck:
  "generate_loop ((mergeOptions defaultOptions options_95_existing)\<lparr>sparsity := 1\<rparr>)
     (scan four 0 ''##'') 5 [] [] codes_00_94 (sconst 0) = None"
proof (rule ccontr)
  let ?options = "(mergeOptions defaultOptions options_95_existing)\<lparr>sparsity := 1\<rparr>"
  let ?I = "\<lambda>(g::string list) e r. g = [] \<and> e = codes_00_94 \<and> r = sconst (0::real)"
  assume "generate_loop ?options (scan four 0 ''##'') 5 [] [] codes_00_94 (sconst 0) \<noteq> None"
  then obtain result where run:
    "generate_loop ?options (scan four 0 ''##'') 5 [] [] codes_00_94 (sconst 0) = Some result"
    by blast
  show False
  proof (cases result)
    case (Inl e)
    have "\<exists>generated' existingCodes' rnd'. ?I generated' existingCodes' rnd' \<and>
            ''hasOwnProperty'' \<in> set existingCodes'"
      by (rule generate_loop_throws(2) [where I = ?I, OF _ run [unfolded Inl]])
        (use replace_00 member_00 in auto)
    then show False using codes_00_94_facts by auto
  next
    case (Inr codes)
    have "5 \<le> length codes"
      by (rule generate_loop_returns(1) [where I = ?I, OF _ run [unfolded Inr]])
        (use replace_00 member_00 in auto)
    moreover have "\<exists>existingCodes' rnd'. ?I codes existingCodes' rnd'"
      by (rule generate_loop_returns(2) [where I = ?I, OF _ run [unfolded Inr]])
        (use replace_00 member_00 in auto)
    ultimately show False by auto
  qed
qed

text \<open>
  The loop has no bound: with a random source that draws the same existing code time
  after time, the call passes the capacity check and never returns.
\<close>

lemma generateCodes_can_run_forever:
  "generateCodes fresh (sconst 0) ''##'' (Some 5) options_95_existing = None"
  by (simp add: generateCodes_unfold Let_def loadExistingCodes_95 planner_95
      hasMorePlaceholder_no_placeholder codes_00_94_facts requested_def loop_95_stuck
      del: scan.simps)

subsection \<open>The capacity error\<close>

text \<open>
  The capacity check at the sparsity \<^verbatim>\<open>1.1\<close>, where the rounding of the products
  decides. The pattern \<^verbatim>\<open>##*\<close> has 3300 permutations, and \<open>3000 * 11/10 = 3300\<close>;
  the code computes \<^verbatim>\<open>Math.ceil(3000 * 1.1) = 3301\<close> and refuses a request for 3000
  codes. The pattern \<^verbatim>\<open>*\<close> has 33 permutations; the double \<^verbatim>\<open>1.1\<close> is more than
  \<open>11/10\<close>, and yet \<^verbatim>\<open>Math.ceil(30 * 1.1) = 33\<close>, so a request for 30 codes passes
  the check.
\<close>

lemma planner_sparsity_1_1:
  "countNonRepeatingPermutations ''##*'' (mergeOptions defaultOptions options_sparsity_1_1) = 3300"
  "countNonRepeatingPermutations ''*'' (mergeOptions defaultOptions options_sparsity_1_1) = 33"
  "clamped_sparsity options_sparsity_1_1 = sparsity_1_1"
  "existingCodesLoader (mergeOptions defaultOptions options_sparsity_1_1) pattern = []"
  "loadExistingCodes pattern (mergeOptions defaultOptions options_sparsity_1_1) = []"
  using sparsity_1_1_bounds
  by (simp_all add: planner_defs regexp_defs clamped_sparsity_def mergeOptions_def
      options_sparsity_1_1_def no_options_def defaultOptions_def loadExistingCodes_def
      convertToObject_def)

lemma run_sparsity_1_1_fails:
  "generateCodes li rnd ''##*'' (Some 3000) options_sparsity_1_1
     = Some (Inl (CapacityError 3000 3000 0 sparsity_1_1))"
  by (simp add: generateCodes_unfold Let_def planner_sparsity_1_1
      hasMorePlaceholder_no_placeholder requested_def scaled_3000_sparsity_1_1
      del: scan.simps)

lemma run_sparsity_1_1_passes:
  "generateCodes li rnd ''*'' (Some 30) options_sparsity_1_1
     = generate_loop ((mergeOptions defaultOptions options_sparsity_1_1)\<lparr>sparsity := sparsity_1_1\<rparr>)
         (scan four 0 ''*'') 30 [] [] [] rnd"
  by (simp add: generateCodes_unfold Let_def planner_sparsity_1_1
      hasMorePlaceholder_no_placeholder requested_def double_30_sparsity_1_1
      del: scan.simps)




subsection \<open>Count and uniqueness\<close>

text \<open>
  C5, as the claim states it, fails for \<open>howMany = 0\<close>: the call returns one code, not
  none.
\<close>

theorem count_uniqueness_counterexample:
  "generateCodes fresh (sconst 0) ''#'' (Some 0) no_options = Some (Inr [''0''])"
  by (simp add: call_defs planner_defs regexp_defs generate_loop.simps emitter_defs)

text \<open>
  C5, amended. Whenever \<^verbatim>\<open>generateCodes\<close> returns, the sequence has exactly
  \<open>howMany\<close> elements (exactly one when \<open>howMany\<close> is 0 or omitted), its elements are
  pairwise distinct, and none of them equals a string that the loader supplied for the
  call.
\<close>

theorem generateCodes_count_uniqueness:
  assumes "generateCodes li rnd pattern howMany opts = Some (Inr codes)"
  shows "length codes = requested howMany \<and>
         distinct codes \<and>
         (\<forall>c \<in> set codes.
            c \<notin> set (existingCodesLoader (mergeOptions defaultOptions opts) pattern))"
proof -
  let ?merged = "mergeOptions defaultOptions opts"
  from assms have run:
    "generate_loop (?merged\<lparr>sparsity := clamped_sparsity opts\<rparr>) (scan four 0 pattern)
       (requested howMany) [] [] (loadExistingCodes pattern ?merged) rnd = Some (Inr codes)"
    by (simp add: generateCodes_unfold Let_def split: if_splits del: scan.simps)
  from run have "length codes = requested howMany"
    by (rule generate_loop_length) simp
  moreover from run have "distinct codes"
    by (rule generate_loop_unique)
  moreover from generate_loop_unique(2) [OF run]
  have "\<forall>c \<in> set codes. c \<notin> set (existingCodesLoader ?merged pattern)"
    by (simp add: loadExistingCodes_def set_convertToObject)
  ultimately show ?thesis by blast
qed

text \<open>
  A run with a collision: the loader supplies \<^verbatim>\<open>0\<close>, the first draw gives \<^verbatim>\<open>0\<close> again
  and is dropped, the second gives \<^verbatim>\<open>1\<close>.
\<close>

theorem generateCodes_count_uniqueness_witness:
  "generateCodes fresh ([0, 1/10] @- sconst 0) ''#'' (Some 1)
     (no_options\<lparr>user_existingCodesLoader := Some (\<lambda>pattern. [''0''])\<rparr>) = Some (Inr [''1'']) \<and>
   length [''1''] = requested (Some 1) \<and>
   distinct [''1''] \<and>
   ''1'' \<notin> set (existingCodesLoader (mergeOptions defaultOptions
             (no_options\<lparr>user_existingCodesLoader := Some (\<lambda>pattern. [''0''])\<rparr>)) ''#'')"
  using generateCodes_count_uniqueness [OF run_collision]
  by (intro conjI run_collision) auto

subsection \<open>Shape conformance\<close>

text \<open>
  C8, as the claim states it, fails for an empty alphabet: with no numeric characters,
  the pattern \<^verbatim>\<open>#*\<close> yields the code \<^verbatim>\<open>1\<close>, in which nothing stands for \<^verbatim>\<open>#\<close>.
\<close>

theorem shape_counterexample:
  "generateCodes fresh (sconst 0) ''#*'' (Some 1) (no_options\<lparr>user_numericChars := Some []\<rparr>)
     = Some (Inr [''1'']) \<and>
   \<not> matches_pattern
       (alphanumericChars (mergeOptions defaultOptions (no_options\<lparr>user_numericChars := Some []\<rparr>)))
       (numericChars (mergeOptions defaultOptions (no_options\<lparr>user_numericChars := Some []\<rparr>)))
       ''#*'' ''1''"
  by (simp add: call_defs planner_defs regexp_defs generate_loop.simps emitter_defs)

text \<open>
  C8, amended. When the alphabet of every kind of fixed placeholder that occurs in the
  pattern is not empty, every code that \<^verbatim>\<open>generateCodes\<close> returns conforms to the
  pattern: literal characters are unchanged at their positions, each \<^verbatim>\<open>#\<close> and \<^verbatim>\<open>*\<close> is
  replaced by exactly one character of its alphabet, and every character that stands
  for a placeholder is drawn from the alphabet of that placeholder (the random source
  obeys the contract of \<^verbatim>\<open>Math.random\<close>).
\<close>

theorem generateCodes_shape:
  assumes "generateCodes li rnd pattern howMany opts = Some (Inr codes)"
    and "Math_random rnd"
    and "has_fixed_placeholder CHR ''*'' pattern
           \<Longrightarrow> alphanumericChars (mergeOptions defaultOptions opts) \<noteq> []"
    and "has_fixed_placeholder CHR ''#'' pattern
           \<Longrightarrow> numericChars (mergeOptions defaultOptions opts) \<noteq> []"
  shows "\<forall>code \<in> set codes.
           matches_pattern (alphanumericChars (mergeOptions defaultOptions opts))
             (numericChars (mergeOptions defaultOptions opts)) pattern code"
proof -
  let ?merged = "mergeOptions defaultOptions opts"
  let ?options = "?merged\<lparr>sparsity := clamped_sparsity opts\<rparr>"
  from assms(1) have run:
    "generate_loop ?options (scan four 0 pattern) (requested howMany) [] []
       (loadExistingCodes pattern ?merged) rnd = Some (Inr codes)"
    by (simp add: generateCodes_unfold Let_def split: if_splits del: scan.simps)
  have "\<forall>code \<in> set codes.
          matches_pattern (alphanumericChars ?options) (numericChars ?options) pattern code"
  proof (rule generate_loop_all [where R = Math_random, OF run _ assms(2)])
    show "\<forall>c \<in> set []. matches_pattern (alphanumericChars ?options) (numericChars ?options)
            pattern c"
      by simp
    show "matches_pattern (alphanumericChars ?options) (numericChars ?options) pattern code
            \<and> Math_random rnd'"
      if "Math_random r" and "replace ?options (scan four 0 pattern) [] r = Some (code, rnd')"
      for r code rnd'
      using replace_matches_pattern [OF that(2,1)] assms(3,4) by simp
  qed
  then show ?thesis by simp
qed

theorem generateCodes_shape_witness:
  "Math_random ([3/10, 1/2] @- sconst 0) \<and>
   generateCodes fresh ([3/10, 1/2] @- sconst 0) ''A#-*'' (Some 1) no_options
     = Some (Inr [''A3-H'']) \<and>
   matches_pattern (alphanumericChars (mergeOptions defaultOptions no_options))
     (numericChars (mergeOptions defaultOptions no_options)) ''A#-*'' ''A3-H''"
proof -
  have r: "Math_random ([3/10, 1/2] @- sconst 0)" by (simp add: Math_random_def)
  have "alphanumericChars (mergeOptions defaultOptions no_options) \<noteq> []"
    and "numericChars (mergeOptions defaultOptions no_options) \<noteq> []"
    by (simp_all add: mergeOptions_def no_options_def defaultOptions_def)
  with generateCodes_shape [OF run_shape r] r run_shape show ?thesis by simp
qed

subsection \<open>The default of howMany\<close>

text \<open>
  C10. A call of \<^verbatim>\<open>generateCodes\<close> with \<open>howMany = 0\<close>, or without \<open>howMany\<close>, is the
  call with \<open>howMany = 1\<close>: it behaves the same, and when it returns, it returns exactly
  one code.
\<close>

theorem howMany_zero_is_one:
  "generateCodes li rnd pattern (Some 0) opts = generateCodes li rnd pattern (Some 1) opts \<and>
   generateCodes li rnd pattern None opts = generateCodes li rnd pattern (Some 1) opts \<and>
   (\<forall>codes. generateCodes li rnd pattern (Some 0) opts = Some (Inr codes) \<or>
            generateCodes li rnd pattern None opts = Some (Inr codes)
        \<longrightarrow> length codes = 1)"
proof -
  have eq: "generateCodes li rnd pattern (Some 0) opts = generateCodes li rnd pattern (Some 1) opts"
    "generateCodes li rnd pattern None opts = generateCodes li rnd pattern (Some 1) opts"
    by (simp_all add: generateCodes_def)
  have "length codes = 1" if "generateCodes li rnd pattern (Some 1) opts = Some (Inr codes)"
    for codes
  proof -
    from that have
      "generate_loop ((mergeOptions defaultOptions opts)\<lparr>sparsity := clamped_sparsity opts\<rparr>)
         (scan four 0 pattern) 1 [] [] (loadExistingCodes pattern (mergeOptions defaultOptions opts))
         rnd = Some (Inr codes)"
      by (simp add: generateCodes_unfold Let_def requested_def split: if_splits del: scan.simps)
    then show ?thesis by (rule generate_loop_length) simp
  qed
  with eq show ?thesis by simp
qed

theorem howMany_zero_is_one_witness:
  "generateCodes fresh (sconst 0) ''#'' (Some 0) no_options = Some (Inr [''0'']) \<and>
   generateCodes fresh (sconst 0) ''#'' None no_options = Some (Inr [''0'']) \<and>
   length [''0''] = 1"
proof -
  have "generateCodes fresh (sconst 0) ''#'' (Some 1) no_options = Some (Inr [''0''])"
    by (simp add: call_defs planner_defs regexp_defs generate_loop.simps emitter_defs)
  with howMany_zero_is_one [of fresh "sconst 0" "''#''" no_options] show ?thesis by simp
qed


subsection \<open>The lengths of calculateRepetitions\<close>

lemma neededChars_finite:
  assumes "1 \<le> d" and "2 \<le> length allowedChars"
  shows "neededChars d allowedChars
           = Finite \<lceil>ln (real_of_int d) / ln (real (length allowedChars))\<rceil>"
  using assms by (simp add: neededChars_def Let_def)

lemma ceiling_log_least:
  fixes n k :: nat and d :: int
  assumes n: "2 \<le> n" and lower: "int (n ^ k) < d" and upper: "d \<le> int (n ^ Suc k)"
  shows "\<lceil>ln (real_of_int d) / ln (real n)\<rceil> = int (Suc k)"
proof -
  from n have ln_n: "0 < ln (real n)" by simp
  from n have pos: "0 < real n ^ k" by simp
  from lower have low': "real n ^ k < real_of_int d"
    by (metis of_int_less_iff of_int_of_nat_eq of_nat_power)
  with pos have d: "0 < real_of_int d" by linarith
  from low' pos d have "ln (real n ^ k) < ln (real_of_int d)" by (subst ln_less_cancel_iff)
  moreover have "ln (real n ^ k) = real k * ln (real n)"
    by (rule ln_realpow)
  ultimately have "real k * ln (real n) < ln (real_of_int d)"
    by (simp only:)
  then have low: "real k < ln (real_of_int d) / ln (real n)"
    using ln_n by (simp add: pos_less_divide_eq)
  from upper have "real_of_int d \<le> real n ^ Suc k"
    by (metis of_int_le_iff of_int_of_nat_eq of_nat_power)
  moreover from n have "0 < real n ^ Suc k" by simp
  ultimately have "ln (real_of_int d) \<le> ln (real n ^ Suc k)"
    using d by (subst ln_le_cancel_iff)
  moreover have "ln (real n ^ Suc k) = real (Suc k) * ln (real n)"
    by (rule ln_realpow)
  ultimately have "ln (real_of_int d) \<le> real (Suc k) * ln (real n)"
    by (simp only:)
  then have up: "ln (real_of_int d) / ln (real n) \<le> real (Suc k)"
    using ln_n by (simp add: pos_divide_le_eq)
  from low up show ?thesis by (simp add: ceiling_eq_iff)
qed

text \<open>
  \<^verbatim>\<open>neededChars\<close> is the least length \<open>L\<close> with \<open>n ^ L \<ge> howMany\<close>, for an alphabet of
  \<open>n \<ge> 2\<close> characters (in exact arithmetic).
\<close>

lemma neededChars_least:
  assumes "2 \<le> length allowedChars"
    and "int (length allowedChars ^ k) < d"
    and "d \<le> int (length allowedChars ^ Suc k)"
  shows "neededChars d allowedChars = Finite (int (Suc k))"
proof -
  have "0 \<le> int (length allowedChars ^ k)" by simp
  with assms(2) have "1 \<le> d" by linarith
  from neededChars_finite [OF this assms(1)] ceiling_log_least [OF assms] show ?thesis by simp
qed

text \<open>
  The repetitions that the call \<^verbatim>\<open>generateCodes('V-#+', 50)\<close> computes before the
  assignment throws: two digits.
\<close>

lemma repetitions_V_50: "calculateRepetitions ''V-#+'' 50 0 defaultOptions = [Finite 2]"
proof -
  have "neededChars 50 ''0123456789'' = Finite (int (Suc 1))"
    by (rule neededChars_least) simp_all
  then show ?thesis
    by (simp add: calculateRepetitions_def planner_defs regexp_defs defaultOptions_def)
qed

lemma first_alternative_More:
  "first_alternative [Plus_token CHR ''*'', Plus_token CHR ''#''] s = Some (g, n)
     \<Longrightarrow> has_variable_placeholder s"
  by (cases s rule: has_variable_placeholder.cases) (auto split: if_splits)

lemma scan_More_Matched:
  "Matched g \<in> set (scan [Plus_token CHR ''*'', Plus_token CHR ''#''] k p)
     \<Longrightarrow> has_variable_placeholder p"
proof (induction p arbitrary: k)
  case Nil
  then show ?case by simp
next
  case (Cons c p)
  show ?case
  proof (cases k)
    case (Suc j)
    with Cons.prems have "Matched g \<in> set (scan [Plus_token CHR ''*'', Plus_token CHR ''#''] j p)"
      by simp
    then have "has_variable_placeholder p" by (rule Cons.IH)
    then show ?thesis by (rule has_variable_placeholder_Cons)
  next
    case 0
    show ?thesis
    proof (cases "first_alternative [Plus_token CHR ''*'', Plus_token CHR ''#''] (c # p)")
      case (Some a)
      obtain g' m where "a = (g', m)" by (cases a)
      with Some show ?thesis by (blast dest: first_alternative_More)
    next
      case None
      with Cons.prems 0
      have "Matched g \<in> set (scan [Plus_token CHR ''*'', Plus_token CHR ''#''] 0 p)"
        by simp
      then have "has_variable_placeholder p" by (rule Cons.IH)
      then show ?thesis by (rule has_variable_placeholder_Cons)
    qed
  qed
qed

lemma scan_single_Plus:
  "scan [Plus_token c] 0 (x # y # s) =
     (if x = c \<and> y = CHR ''+'' then Matched 0 # scan [Plus_token c] 0 s
      else Literal x # scan [Plus_token c] 0 (y # s))"
  by simp

lemma String_match_More:
  "has_variable_placeholder p \<Longrightarrow>
     0 < String_match p alphanumericMoreRegex + String_match p numericMoreRegex"
proof (induction p rule: has_variable_placeholder.induct)
  case (1 x y s)
  show ?case
  proof (cases "(x = CHR ''*'' \<or> x = CHR ''#'') \<and> y = CHR ''+''")
    case True
    then show ?thesis by (auto simp: regexp_defs)
  next
    case False
    with 1 have "0 < String_match (y # s) alphanumericMoreRegex
                   + String_match (y # s) numericMoreRegex"
      by simp
    then show ?thesis
      unfolding regexp_defs
      by (simp only: scan_single_Plus) (auto split: if_splits)
  qed
qed simp_all

lemma ceiling_quotient_one:
  fixes d t :: int
  assumes "1 \<le> d" and "1 \<le> t"
  shows "1 \<le> \<lceil>real_of_int d / real_of_int t\<rceil>"
    and "\<lceil>real_of_int d / real_of_int t\<rceil> = 1 \<longleftrightarrow> d \<le> t"
proof -
  from assms have pos: "0 < real_of_int d / real_of_int t" by simp
  then show "1 \<le> \<lceil>real_of_int d / real_of_int t\<rceil>" by (simp add: less_ceiling_iff)
  have "\<lceil>real_of_int d / real_of_int t\<rceil> = 1 \<longleftrightarrow> real_of_int d / real_of_int t \<le> 1"
    using pos by (simp add: ceiling_eq_iff)
  also have "\<dots> \<longleftrightarrow> d \<le> t" using assms by (simp add: divide_le_eq)
  finally show "\<lceil>real_of_int d / real_of_int t\<rceil> = 1 \<longleftrightarrow> d \<le> t" .
qed

lemma ceiling_log_zero:
  assumes "1 \<le> d" and "2 \<le> n"
  shows "0 \<le> \<lceil>ln (real_of_int d) / ln (real n)\<rceil>"
    and "\<lceil>ln (real_of_int d) / ln (real n)\<rceil> = 0 \<longleftrightarrow> d = 1"
proof -
  from assms(2) have n: "0 < ln (real n)" by simp
  from assms(1) have d: "0 \<le> ln (real_of_int d)" by simp
  from n d have q: "0 \<le> ln (real_of_int d) / ln (real n)" by simp
  then show "0 \<le> \<lceil>ln (real_of_int d) / ln (real n)\<rceil>" by simp
  have "\<lceil>ln (real_of_int d) / ln (real n)\<rceil> = 0 \<longleftrightarrow> ln (real_of_int d) / ln (real n) = 0"
    using q by (auto simp: ceiling_eq_iff)
  also have "\<dots> \<longleftrightarrow> ln (real_of_int d) = 0" using n by simp
  also have "\<dots> \<longleftrightarrow> d = 1" using assms(1) by simp
  finally show "\<lceil>ln (real_of_int d) / ln (real n)\<rceil> = 0 \<longleftrightarrow> d = 1" .
qed

text \<open>
  Without a variable-length placeholder the callback never runs and the result is
  empty, whatever \<open>distribute\<close> is.
\<close>

lemma calculateRepetitions_no_placeholder:
  assumes "\<not> has_variable_placeholder pattern"
  shows "calculateRepetitions pattern howMany existing options = []"
proof -
  have "n \<notin> set (calculateRepetitions pattern howMany existing options)" for n
  proof
    assume "n \<in> set (calculateRepetitions pattern howMany existing options)"
    then obtain g
      where "Matched g \<in> set (scan [Plus_token CHR ''*'', Plus_token CHR ''#''] 0 pattern)"
      by (auto simp: calculateRepetitions_def Let_def combineRegexps_def segments_def
          alphanumericMoreRegex_def numericMoreRegex_def split: segment.splits)
    then have "has_variable_placeholder pattern" by (rule scan_More_Matched)
    with assms show False by simp
  qed
  then show ?thesis by (cases "calculateRepetitions pattern howMany existing options") auto
qed

text \<open>
  C6, as the claim states it, fails: \<^verbatim>\<open>Math.max(1, ...)\<close> keeps the argument of the
  logarithm at 1 or above, and the logarithm of 1 is 0. For the pattern \<^verbatim>\<open>#+\<close> and a
  request for one code, and for the pattern \<^verbatim>\<open>##-#+\<close>, whose fixed placeholders cover a
  request for 50 codes, the resolved length is 0.
\<close>

theorem zero_length_counterexample:
  "calculateRepetitions ''#+'' 1 0 defaultOptions = [Finite 0] \<and>
   calculateRepetitions ''##-#+'' 50 0 defaultOptions = [Finite 0]"
  by (simp add: calculateRepetitions_def planner_defs regexp_defs neededChars_def
      defaultOptions_def)

text \<open>
  C6, amended. On the variable-length path, with alphabets of two or more characters,
  every length that \<^verbatim>\<open>calculateRepetitions\<close> produces is a number that is at least 0.
  It is 0 exactly when the deficit \<open>max(1, howMany - fixedPermutations + existing)\<close> does
  not exceed the number of variable-length placeholders (so whenever the fixed
  placeholders already cover the scaled request), and at least 1 otherwise.
\<close>

theorem calculateRepetitions_lengths:
  assumes "n \<in> set (calculateRepetitions pattern howMany existing options)"
    and "2 \<le> length (alphanumericChars options)"
    and "2 \<le> length (numericChars options)"
  shows "\<exists>k. n = Finite k \<and> 0 \<le> k \<and>
           (k = 0 \<longleftrightarrow>
              max 1 (howMany - int (countNonRepeatingPermutations pattern options) + existing)
                \<le> int (String_match pattern alphanumericMoreRegex
                         + String_match pattern numericMoreRegex))"
proof -
  define deficit where
    "deficit = max 1 (howMany - int (countNonRepeatingPermutations pattern options) + existing)"
  define total where
    "total = String_match pattern alphanumericMoreRegex + String_match pattern numericMoreRegex"
  define distribute where "distribute = \<lceil>real_of_int deficit / real total\<rceil>"
  from assms(1) obtain g
    where g: "Matched g \<in> set (scan [Plus_token CHR ''*'', Plus_token CHR ''#''] 0 pattern)"
      and n: "n = neededChars distribute (alphanumericChars options)
                \<or> n = neededChars distribute (numericChars options)"
    by (auto simp: calculateRepetitions_def Let_def combineRegexps_def segments_def
        alphanumericMoreRegex_def numericMoreRegex_def deficit_def total_def distribute_def
        split: segment.splits if_splits)
  from g have "has_variable_placeholder pattern" by (rule scan_More_Matched)
  then have "0 < total" unfolding total_def by (rule String_match_More)
  then have total: "1 \<le> int total" by linarith
  have deficit: "1 \<le> deficit" by (simp add: deficit_def)
  have "distribute = \<lceil>real_of_int deficit / real_of_int (int total)\<rceil>"
    by (simp add: distribute_def)
  with ceiling_quotient_one [OF deficit total]
  have dist: "1 \<le> distribute" and one: "distribute = 1 \<longleftrightarrow> deficit \<le> int total"
    by simp_all
  have "\<exists>k. neededChars distribute cs = Finite k \<and> 0 \<le> k \<and> (k = 0 \<longleftrightarrow> deficit \<le> int total)"
    if "2 \<le> length cs" for cs
    using ceiling_log_zero [OF dist that] one neededChars_finite [OF dist that] by simp
  with n assms(2,3)
  have "\<exists>k. n = Finite k \<and> 0 \<le> k \<and> (k = 0 \<longleftrightarrow> deficit \<le> int total)"
    by blast
  then show ?thesis by (simp only: deficit_def total_def)
qed

theorem calculateRepetitions_lengths_witness:
  "Finite 0 \<in> set (calculateRepetitions ''##-#+'' 50 0 defaultOptions) \<and>
   2 \<le> length (alphanumericChars defaultOptions) \<and>
   2 \<le> length (numericChars defaultOptions) \<and>
   max 1 (50 - int (countNonRepeatingPermutations ''##-#+'' defaultOptions) + 0)
     \<le> int (String_match ''##-#+'' alphanumericMoreRegex + String_match ''##-#+'' numericMoreRegex)"
proof -
  have m: "Finite 0 \<in> set (calculateRepetitions ''##-#+'' 50 0 defaultOptions)"
    by (simp add: calculateRepetitions_def planner_defs regexp_defs neededChars_def
        defaultOptions_def)
  have a: "2 \<le> length (alphanumericChars defaultOptions)"
    and b: "2 \<le> length (numericChars defaultOptions)"
    by (simp_all add: defaultOptions_def)
  from calculateRepetitions_lengths [OF m a b] m a b show ?thesis by simp
qed

subsection \<open>Monotonicity\<close>

lemma calculateRepetitions_A:
  "calculateRepetitions ''A#+'' howMany existing options
     = [neededChars (max 1 (howMany + existing)) (numericChars options)]"
  by (simp add: calculateRepetitions_def planner_defs regexp_defs)

lemma ceiling_log_mono:
  assumes "1 \<le> d" and "d \<le> d'" and "2 \<le> n"
  shows "\<lceil>ln (real_of_int d) / ln (real n)\<rceil> \<le> \<lceil>ln (real_of_int d') / ln (real n)\<rceil>"
proof -
  from assms have "ln (real_of_int d) \<le> ln (real_of_int d')" by simp
  moreover from assms(3) have "0 < ln (real n)" by simp
  ultimately have "ln (real_of_int d) / ln (real n) \<le> ln (real_of_int d') / ln (real n)"
    by (simp add: divide_right_mono)
  then show ?thesis by (rule ceiling_mono)
qed

lemma neededChars_mono:
  assumes "1 \<le> d" and "d \<le> d'"
  shows "\<not> number_less (neededChars d' allowedChars) (neededChars d allowedChars)"
proof -
  consider "length allowedChars = 0" | "length allowedChars = 1" | "2 \<le> length allowedChars"
    by linarith
  then show ?thesis
  proof cases
    case 1
    with assms show ?thesis by (simp add: neededChars_def)
  next
    case 2
    with assms show ?thesis by (auto simp: neededChars_def)
  next
    case 3
    with assms ceiling_log_mono [OF assms 3] show ?thesis
      by (simp add: neededChars_finite)
  qed
qed

text \<open>
  The scaled request \<^verbatim>\<open>Math.ceil(howMany * sparsity)\<close> that \<^verbatim>\<open>generateCodes\<close> passes
  to \<^verbatim>\<open>calculateRepetitions\<close> grows with \<open>howMany\<close>.
\<close>

lemma scaled_request_mono:
  assumes "howMany \<le> howMany'"
  shows "\<lceil>double (real (requested (Some howMany)) * clamped_sparsity opts)\<rceil>
           \<le> \<lceil>double (real (requested (Some howMany')) * clamped_sparsity opts)\<rceil>"
proof -
  have s: "1 \<le> clamped_sparsity opts" by (simp add: clamped_sparsity_def)
  have "1 \<le> requested (Some howMany)" by (simp add: requested_def)
  with s have "0 < real (requested (Some howMany)) * clamped_sparsity opts" by simp
  moreover from assms have "requested (Some howMany) \<le> requested (Some howMany')"
    by (simp add: requested_def)
  with s have "real (requested (Some howMany)) * clamped_sparsity opts
                 \<le> real (requested (Some howMany')) * clamped_sparsity opts"
    by (intro mult_right_mono) simp_all
  ultimately show ?thesis by (intro ceiling_mono double_mono)
qed

text \<open>
  C7. For the pattern \<^verbatim>\<open>A#+\<close>, with the existing count and the options fixed,
  \<^verbatim>\<open>calculateRepetitions\<close> resolves one length for the \<^verbatim>\<open>#+\<close> token, and a larger
  \<open>howMany\<close> never gives a smaller one: the length for \<open>howMany'\<close> is not less (in the
  sense of JavaScript's \<^verbatim>\<open><\<close>) than the length for \<open>howMany \<le> howMany'\<close>. With a
  numeric alphabet of two or more characters both lengths are integers \<open>k \<le> k'\<close>.
\<close>

theorem repetitions_monotone:
  assumes "howMany \<le> howMany'"
  shows "\<exists>n n'. calculateRepetitions ''A#+'' howMany existing options = [n] \<and>
                calculateRepetitions ''A#+'' howMany' existing options = [n'] \<and>
                \<not> number_less n' n \<and>
                (2 \<le> length (numericChars options) \<longrightarrow>
                   (\<exists>k k'. n = Finite k \<and> n' = Finite k' \<and> k \<le> k'))"
proof -
  let ?d = "max 1 (howMany + existing)" and ?d' = "max 1 (howMany' + existing)"
  have d: "1 \<le> ?d" "?d \<le> ?d'" using assms by simp_all
  have "\<not> number_less (neededChars ?d' (numericChars options))
            (neededChars ?d (numericChars options))"
    using d by (rule neededChars_mono)
  moreover have "\<exists>k k'. neededChars ?d (numericChars options) = Finite k \<and>
                   neededChars ?d' (numericChars options) = Finite k' \<and> k \<le> k'"
    if "2 \<le> length (numericChars options)"
    using that d ceiling_log_mono [OF d that] by (simp add: neededChars_finite)
  ultimately show ?thesis by (simp add: calculateRepetitions_A)
qed

theorem repetitions_monotone_witness:
  "(5::int) \<le> 50 \<and>
   calculateRepetitions ''A#+'' 5 0 defaultOptions = [Finite 1] \<and>
   calculateRepetitions ''A#+'' 50 0 defaultOptions = [Finite 2] \<and>
   \<not> number_less (Finite 2) (Finite 1)"
proof -
  have "neededChars 5 ''0123456789'' = Finite (int (Suc 0))"
    by (rule neededChars_least) simp_all
  moreover have "neededChars 50 ''0123456789'' = Finite (int (Suc 1))"
    by (rule neededChars_least) simp_all
  ultimately have "calculateRepetitions ''A#+'' 5 0 defaultOptions = [Finite 1]"
    and "calculateRepetitions ''A#+'' 50 0 defaultOptions = [Finite 2]"
    by (simp_all add: calculateRepetitions_A defaultOptions_def)
  with repetitions_monotone [of 5 50 0 defaultOptions] show ?thesis by simp
qed

end
